theory Spec2Isabelle
  imports Main
begin

section \<open>The data model of versioner.cpp\<close>

text \<open>
  The versioner checks the availability annotations of a header collection. The
  file versioner.cpp holds the configuration matrix generator
  (generateCompilationTypes), the internal consistency checker (checkSymbol,
  sanityCheck), the cross-platform checker (checkVersions) and main.

  The headers Arch.h, DeclarationDatabase.h and SymbolDatabase.h are not among
  the sources. What versioner.cpp reads of their types is kept as fields; what it
  calls of their functions and tables (arch_min_api, Declaration::calculateAvailability,
  Symbol::calculateAvailability, Symbol::hasDeclaration, DeclarationAvailability::empty,
  preprocessHeaders) is a parameter of the function that uses it. The type Arch is
  a type variable.

  The C++ int of API levels is modelled by int: the code only compares levels and
  never computes with them.
\<close>

record 'arch CompilationType =
  arch :: 'arch
  api_level :: int
  file_offset_bits :: int

text \<open>
  The fields of an availability that checkVersions reads: introduced, obsoleted and
  future; deprecated is named by the data model of the specification.
\<close>

record AvailabilityValues =
  future :: bool
  introduced :: int
  deprecated :: int
  obsoleted :: int

record 'arch DeclarationAvailability =
  global_availability :: AvailabilityValues
  arch_availability :: "'arch \<Rightarrow> AvailabilityValues"

text \<open>
  A declaration: versioner.cpp reads is_definition and hands the rest to
  calculateAvailability; the raw availability attributes are kept abstract.
\<close>

record 'raw Declaration =
  is_definition :: bool
  attributes :: 'raw

text \<open>
  A symbol owns its declarations; versioner.cpp iterates over the map
  symbol.declarations and reads only the mapped values, so the map is the list of
  its values in iteration order.
\<close>

record 'raw Symbol =
  name :: string
  declarations :: "'raw Declaration list"

text \<open>
  The header database: the map symbols from names to symbols, as the list of its
  entries in iteration order.
\<close>

record 'raw HeaderDatabase =
  symbols :: "(string \<times> 'raw Symbol) list"

text \<open>errx(1, ...) ends the process with exit status 1.\<close>

datatype error = Fatal string

section \<open>Configuration matrix generator\<close>

text \<open>
  generateCompilationTypes: three nested loops over the selected architectures, the
  selected levels and the two values of file_offset_bits, inserting into a set.
  The two std::set arguments are given as the lists of their elements in iteration
  order.
\<close>

fun file_offset_bits_loop ::
  "'arch \<Rightarrow> int \<Rightarrow> int list \<Rightarrow> 'arch CompilationType set \<Rightarrow> 'arch CompilationType set" where
  "file_offset_bits_loop a l [] result = result"
| "file_offset_bits_loop a l (b # bs) result =
     file_offset_bits_loop a l bs
       (insert \<lparr>arch = a, api_level = l, file_offset_bits = b\<rparr> result)"

fun api_level_loop ::
  "int \<Rightarrow> 'arch \<Rightarrow> int list \<Rightarrow> 'arch CompilationType set \<Rightarrow> 'arch CompilationType set" where
  "api_level_loop min_api a [] result = result"
| "api_level_loop min_api a (l # ls) result =
     (if l < min_api then api_level_loop min_api a ls result
      else api_level_loop min_api a ls (file_offset_bits_loop a l [32, 64] result))"

fun arch_loop ::
  "('arch \<Rightarrow> int) \<Rightarrow> 'arch list \<Rightarrow> int list \<Rightarrow> 'arch CompilationType set
    \<Rightarrow> 'arch CompilationType set" where
  "arch_loop arch_min_api [] selected_levels result = result"
| "arch_loop arch_min_api (a # as) selected_levels result =
     arch_loop arch_min_api as selected_levels
       (api_level_loop (arch_min_api a) a selected_levels result)"

definition generateCompilationTypes ::
  "('arch \<Rightarrow> int) \<Rightarrow> 'arch list \<Rightarrow> int list \<Rightarrow> 'arch CompilationType set" where
  "generateCompilationTypes arch_min_api selected_architectures selected_levels =
     arch_loop arch_min_api selected_architectures selected_levels {}"

section \<open>Internal consistency checker\<close>

text \<open>
  checkSymbol, the loop over symbol.declarations. inline_definition is the pointer
  to the first definition seen (None for nullptr). Each return false of the source
  is a branch with the value False; True says that the loop ran to its end.
  decl_calculateAvailability d is None when decl->calculateAvailability returns
  false, and Some of the availability it writes otherwise.
\<close>

fun checkSymbol_loop ::
  "('raw Declaration \<Rightarrow> 'arch DeclarationAvailability option) \<Rightarrow>
   ('arch DeclarationAvailability \<Rightarrow> bool) \<Rightarrow>
   'raw Declaration list \<Rightarrow> 'raw Declaration option \<Rightarrow> bool" where
  "checkSymbol_loop decl_calculateAvailability availability_empty [] inline_definition = True"
| "checkSymbol_loop decl_calculateAvailability availability_empty (decl # decls) inline_definition =
     (if is_definition decl \<and> inline_definition \<noteq> None then False
      else
        (case decl_calculateAvailability decl of
           None \<Rightarrow> False
         | Some avail \<Rightarrow>
             if is_definition decl \<and> \<not> availability_empty avail then False
             else checkSymbol_loop decl_calculateAvailability availability_empty decls
                    (if is_definition decl then Some decl else inline_definition)))"

definition checkSymbol ::
  "('raw Declaration \<Rightarrow> 'arch DeclarationAvailability option) \<Rightarrow>
   ('raw Symbol \<Rightarrow> 'arch DeclarationAvailability option) \<Rightarrow>
   ('arch DeclarationAvailability \<Rightarrow> bool) \<Rightarrow> 'raw Symbol \<Rightarrow> bool" where
  "checkSymbol decl_calculateAvailability symbol_calculateAvailability availability_empty symbol =
     (if \<not> checkSymbol_loop decl_calculateAvailability availability_empty
             (declarations symbol) None
      then False
      else (case symbol_calculateAvailability symbol of
              None \<Rightarrow> False
            | Some avail \<Rightarrow> True))"

text \<open>sanityCheck: the loop over database->symbols sets error and goes on.\<close>

fun sanityCheck_loop :: "('raw Symbol \<Rightarrow> bool) \<Rightarrow> (string \<times> 'raw Symbol) list \<Rightarrow> bool \<Rightarrow> bool" where
  "sanityCheck_loop check [] err = err"
| "sanityCheck_loop check (symbol_it # rest) err =
     sanityCheck_loop check rest (if \<not> check (snd symbol_it) then True else err)"

definition sanityCheck ::
  "('raw Declaration \<Rightarrow> 'arch DeclarationAvailability option) \<Rightarrow>
   ('raw Symbol \<Rightarrow> 'arch DeclarationAvailability option) \<Rightarrow>
   ('arch DeclarationAvailability \<Rightarrow> bool) \<Rightarrow> 'raw HeaderDatabase \<Rightarrow> bool" where
  "sanityCheck decl_calculateAvailability symbol_calculateAvailability availability_empty database =
     (\<not> sanityCheck_loop
          (checkSymbol decl_calculateAvailability symbol_calculateAvailability availability_empty)
          (symbols database) False)"

text \<open>
  The conditions that the specification names for a failing symbol, in its words:
  more than one declaration is a definition; a definition carries a calculated
  availability that is not empty; a declaration's own availability does not
  calculate.
\<close>

definition multiple_definitions :: "'raw Symbol \<Rightarrow> bool" where
  "multiple_definitions symbol = (1 < length (filter is_definition (declarations symbol)))"

definition definition_with_availability ::
  "('raw Declaration \<Rightarrow> 'arch DeclarationAvailability option) \<Rightarrow>
   ('arch DeclarationAvailability \<Rightarrow> bool) \<Rightarrow> 'raw Symbol \<Rightarrow> bool" where
  "definition_with_availability decl_calculateAvailability availability_empty symbol =
     list_ex (\<lambda>decl. is_definition decl \<and>
                (case decl_calculateAvailability decl of
                   None \<Rightarrow> False
                 | Some avail \<Rightarrow> \<not> availability_empty avail))
       (declarations symbol)"

definition declaration_fails ::
  "('raw Declaration \<Rightarrow> 'arch DeclarationAvailability option) \<Rightarrow> 'raw Symbol \<Rightarrow> bool" where
  "declaration_fails decl_calculateAvailability symbol =
     list_ex (\<lambda>decl. decl_calculateAvailability decl = None) (declarations symbol)"

section \<open>Cross-platform checker\<close>

text \<open>
  The maps missing_availability and extra_availability, from symbol names to sets of
  configurations, and the platform symbol database, whose entries checkVersions
  finds by name and iterates over.
\<close>

type_synonym 'arch availability_map = "string \<rightharpoonup> 'arch CompilationType set"

type_synonym 'arch NdkSymbolDatabase = "(string \<times> 'arch CompilationType set) list"

text \<open>m[symbol_name].insert(type): operator[] makes the empty set where the key is new.\<close>

definition insert_availability ::
  "string \<Rightarrow> 'arch CompilationType \<Rightarrow> 'arch availability_map \<Rightarrow> 'arch availability_map" where
  "insert_availability symbol_name type m =
     m(symbol_name \<mapsto> insert type (case m symbol_name of None \<Rightarrow> {} | Some s \<Rightarrow> s))"

text \<open>
  The body of the loop over types. version_available is should_be_available after
  the four tests of introduced and obsoleted; should_be_available is its value
  after the test of hasDeclaration, where it is compared with the platform.
\<close>

definition version_available ::
  "'arch DeclarationAvailability \<Rightarrow> 'arch CompilationType \<Rightarrow> bool" where
  "version_available symbol_availability type =
     (let should_be_available = True;
          global = global_availability symbol_availability;
          arch_avail = arch_availability symbol_availability (arch type);
          should_be_available =
            (if introduced global \<noteq> 0 \<and> introduced global > api_level type then False
             else should_be_available);
          should_be_available =
            (if introduced arch_avail \<noteq> 0 \<and> introduced arch_avail > api_level type then False
             else should_be_available);
          should_be_available =
            (if obsoleted global \<noteq> 0 \<and> obsoleted global \<le> api_level type then False
             else should_be_available);
          should_be_available =
            (if obsoleted arch_avail \<noteq> 0 \<and> obsoleted arch_avail \<le> api_level type then False
             else should_be_available)
      in should_be_available)"

definition should_be_available ::
  "('raw Symbol \<Rightarrow> 'arch CompilationType \<Rightarrow> bool) \<Rightarrow> 'arch DeclarationAvailability \<Rightarrow>
   'raw Symbol \<Rightarrow> 'arch CompilationType \<Rightarrow> bool" where
  "should_be_available hasDeclaration symbol_availability symbol type =
     (if \<not> hasDeclaration symbol type then False
      else version_available symbol_availability type)"

definition check_type ::
  "('raw Symbol \<Rightarrow> 'arch CompilationType \<Rightarrow> bool) \<Rightarrow> 'arch DeclarationAvailability \<Rightarrow>
   'raw Symbol \<Rightarrow> 'arch CompilationType set \<Rightarrow> string \<Rightarrow> 'arch CompilationType \<Rightarrow>
   'arch availability_map \<times> 'arch availability_map \<Rightarrow>
   'arch availability_map \<times> 'arch availability_map" where
  "check_type hasDeclaration symbol_availability symbol platform_availability symbol_name type st =
     (if future (arch_availability symbol_availability (arch type)) then st
      else
        (let is_available = (type \<in> platform_availability)
         in if should_be_available hasDeclaration symbol_availability symbol type \<noteq> is_available
            then (if is_available
                  then (fst st, insert_availability symbol_name type (snd st))
                  else (insert_availability symbol_name type (fst st), snd st))
            else st))"

fun types_loop ::
  "('raw Symbol \<Rightarrow> 'arch CompilationType \<Rightarrow> bool) \<Rightarrow> 'arch DeclarationAvailability \<Rightarrow>
   'raw Symbol \<Rightarrow> 'arch CompilationType set \<Rightarrow> string \<Rightarrow> 'arch CompilationType list \<Rightarrow>
   'arch availability_map \<times> 'arch availability_map \<Rightarrow>
   'arch availability_map \<times> 'arch availability_map" where
  "types_loop hasDeclaration symbol_availability symbol platform_availability symbol_name [] st = st"
| "types_loop hasDeclaration symbol_availability symbol platform_availability symbol_name
     (type # types) st =
     types_loop hasDeclaration symbol_availability symbol platform_availability symbol_name types
       (check_type hasDeclaration symbol_availability symbol platform_availability symbol_name
          type st)"

text \<open>
  The loop over header_database->symbols. The state holds completely_unavailable,
  missing_availability and extra_availability. errx ends the run.
\<close>

fun symbols_loop ::
  "('raw Symbol \<Rightarrow> 'arch DeclarationAvailability option) \<Rightarrow>
   ('raw Symbol \<Rightarrow> 'arch CompilationType \<Rightarrow> bool) \<Rightarrow>
   'arch CompilationType list \<Rightarrow> 'arch NdkSymbolDatabase \<Rightarrow> (string \<times> 'raw Symbol) list \<Rightarrow>
   string set \<times> 'arch availability_map \<times> 'arch availability_map \<Rightarrow>
   error + string set \<times> 'arch availability_map \<times> 'arch availability_map" where
  "symbols_loop symbol_calculateAvailability hasDeclaration types symbol_database [] st = Inr st"
| "symbols_loop symbol_calculateAvailability hasDeclaration types symbol_database
     (symbol_it # rest) (completely_unavailable, st) =
     (case symbol_calculateAvailability (snd symbol_it) of
        None \<Rightarrow> Inl (Fatal ''failed to calculate symbol availability'')
      | Some symbol_availability \<Rightarrow>
          (case map_of symbol_database (fst symbol_it) of
             None \<Rightarrow>
               symbols_loop symbol_calculateAvailability hasDeclaration types symbol_database rest
                 (insert (fst symbol_it) completely_unavailable, st)
           | Some platform_availability \<Rightarrow>
               symbols_loop symbol_calculateAvailability hasDeclaration types symbol_database rest
                 (completely_unavailable,
                  types_loop hasDeclaration symbol_availability (snd symbol_it)
                    platform_availability (fst symbol_it) types st)))"

text \<open>
  What checkVersions prints: the two reports of a divergence and the dump of the
  symbol that has one.
\<close>

datatype 'arch message =
    MarkedAvailableButMissing string "'arch CompilationType set"
  | MarkedUnavailableButAvailable string "'arch CompilationType set"
  | SymbolDump string

text \<open>
  The loop over symbol_database. The state of one iteration is symbol_error, failed
  and the output so far.
\<close>

fun report_missing ::
  "'arch availability_map \<Rightarrow> string \<Rightarrow> bool \<times> bool \<times> 'arch message list \<Rightarrow>
   bool \<times> bool \<times> 'arch message list" where
  "report_missing missing_availability symbol_name (symbol_error, failed, out) =
     (case missing_availability symbol_name of
        None \<Rightarrow> (symbol_error, failed, out)
      | Some types \<Rightarrow> (True, True, out @ [MarkedAvailableButMissing symbol_name types]))"

fun report_extra ::
  "bool \<Rightarrow> 'arch availability_map \<Rightarrow> string \<Rightarrow> bool \<times> bool \<times> 'arch message list \<Rightarrow>
   bool \<times> bool \<times> 'arch message list" where
  "report_extra verbose extra_availability symbol_name (symbol_error, failed, out) =
     (if verbose
      then (case extra_availability symbol_name of
              None \<Rightarrow> (symbol_error, failed, out)
            | Some types \<Rightarrow> (True, True, out @ [MarkedUnavailableButAvailable symbol_name types]))
      else (symbol_error, failed, out))"

fun report_loop ::
  "bool \<Rightarrow> (string \<times> 'raw Symbol) list \<Rightarrow> 'arch availability_map \<Rightarrow> 'arch availability_map \<Rightarrow>
   'arch NdkSymbolDatabase \<Rightarrow> bool \<times> 'arch message list \<Rightarrow> error + bool \<times> 'arch message list" where
  "report_loop verbose header_symbols missing_availability extra_availability [] st = Inr st"
| "report_loop verbose header_symbols missing_availability extra_availability (it # rest)
     (failed, out) =
     (case report_extra verbose extra_availability (fst it)
             (report_missing missing_availability (fst it) (False, failed, out)) of
        (symbol_error, failed', out') \<Rightarrow>
          if symbol_error
          then (case map_of header_symbols (fst it) of
                  None \<Rightarrow> Inl (Fatal ''failed to find symbol in header database'')
                | Some symbol \<Rightarrow>
                    report_loop verbose header_symbols missing_availability extra_availability
                      rest (failed', out' @ [SymbolDump (name symbol)]))
          else report_loop verbose header_symbols missing_availability extra_availability
                 rest (failed', out'))"

text \<open>
  checkVersions. The local arch_types is filled and never read, and is left out.
  checkVersions_trace returns, with the value that checkVersions returns, what it
  printed and the three collections as they are at the return.
\<close>

record 'arch checkVersions_result =
  return_value :: bool
  printed :: "'arch message list"
  completely_unavailable :: "string set"
  missing_availability :: "'arch availability_map"
  extra_availability :: "'arch availability_map"

definition checkVersions_trace ::
  "bool \<Rightarrow> ('raw Symbol \<Rightarrow> 'arch DeclarationAvailability option) \<Rightarrow>
   ('raw Symbol \<Rightarrow> 'arch CompilationType \<Rightarrow> bool) \<Rightarrow>
   'arch CompilationType list \<Rightarrow> 'raw HeaderDatabase \<Rightarrow> 'arch NdkSymbolDatabase \<Rightarrow>
   error + 'arch checkVersions_result" where
  "checkVersions_trace verbose symbol_calculateAvailability hasDeclaration types header_database
     symbol_database =
     (case symbols_loop symbol_calculateAvailability hasDeclaration types symbol_database
             (symbols header_database) ({}, Map.empty, Map.empty) of
        Inl e \<Rightarrow> Inl e
      | Inr (unavailable, missing, extra) \<Rightarrow>
          (case report_loop verbose (symbols header_database) missing extra symbol_database
                  (False, []) of
             Inl e \<Rightarrow> Inl e
           | Inr (failed, out) \<Rightarrow>
               Inr \<lparr>return_value = \<not> failed, printed = out,
                    completely_unavailable = unavailable,
                    missing_availability = missing, extra_availability = extra\<rparr>))"

definition checkVersions ::
  "bool \<Rightarrow> ('raw Symbol \<Rightarrow> 'arch DeclarationAvailability option) \<Rightarrow>
   ('raw Symbol \<Rightarrow> 'arch CompilationType \<Rightarrow> bool) \<Rightarrow>
   'arch CompilationType list \<Rightarrow> 'raw HeaderDatabase \<Rightarrow> 'arch NdkSymbolDatabase \<Rightarrow>
   error + bool" where
  "checkVersions verbose symbol_calculateAvailability hasDeclaration types header_database
     symbol_database =
     (case checkVersions_trace verbose symbol_calculateAvailability hasDeclaration types
             header_database symbol_database of
        Inl e \<Rightarrow> Inl e
      | Inr r \<Rightarrow> Inr (return_value r))"

text \<open>
  The divergences in the words of the specification. A configuration is compared
  when the symbol is not marked future for its architecture; it is a missing
  availability when the predicate holds and the platform does not export the
  symbol there, an extra availability when the predicate fails and the platform
  exports it.
\<close>

definition missing_at ::
  "('raw Symbol \<Rightarrow> 'arch CompilationType \<Rightarrow> bool) \<Rightarrow> 'arch DeclarationAvailability \<Rightarrow>
   'raw Symbol \<Rightarrow> 'arch CompilationType set \<Rightarrow> 'arch CompilationType \<Rightarrow> bool" where
  "missing_at hasDeclaration symbol_availability symbol platform_availability type =
     (\<not> future (arch_availability symbol_availability (arch type)) \<and>
      should_be_available hasDeclaration symbol_availability symbol type \<and>
      type \<notin> platform_availability)"

definition extra_at ::
  "('raw Symbol \<Rightarrow> 'arch CompilationType \<Rightarrow> bool) \<Rightarrow> 'arch DeclarationAvailability \<Rightarrow>
   'raw Symbol \<Rightarrow> 'arch CompilationType set \<Rightarrow> 'arch CompilationType \<Rightarrow> bool" where
  "extra_at hasDeclaration symbol_availability symbol platform_availability type =
     (\<not> future (arch_availability symbol_availability (arch type)) \<and>
      \<not> should_be_available hasDeclaration symbol_availability symbol type \<and>
      type \<in> platform_availability)"

text \<open>The set that a map of availabilities holds for a name, empty where it has no entry.\<close>

definition recorded :: "'arch availability_map \<Rightarrow> string \<Rightarrow> 'arch CompilationType set" where
  "recorded m symbol_name = (case m symbol_name of None \<Rightarrow> {} | Some s \<Rightarrow> s)"

text \<open>
  The divergences of one entry of the header database at a configuration: the
  merged availability of the symbol calculates, the platform database has the name,
  and the configuration is a missing or an extra availability. divergence
  enumerates every symbol and every configuration; extra availabilities count
  when verbose is set.
\<close>

definition symbol_missing_at ::
  "('raw Symbol \<Rightarrow> 'arch DeclarationAvailability option) \<Rightarrow>
   ('raw Symbol \<Rightarrow> 'arch CompilationType \<Rightarrow> bool) \<Rightarrow> 'arch NdkSymbolDatabase \<Rightarrow>
   string \<times> 'raw Symbol \<Rightarrow> 'arch CompilationType \<Rightarrow> bool" where
  "symbol_missing_at symbol_calculateAvailability hasDeclaration symbol_database symbol_it type =
     (case symbol_calculateAvailability (snd symbol_it) of
        None \<Rightarrow> False
      | Some symbol_availability \<Rightarrow>
          (case map_of symbol_database (fst symbol_it) of
             None \<Rightarrow> False
           | Some platform_availability \<Rightarrow>
               missing_at hasDeclaration symbol_availability (snd symbol_it)
                 platform_availability type))"

definition symbol_extra_at ::
  "('raw Symbol \<Rightarrow> 'arch DeclarationAvailability option) \<Rightarrow>
   ('raw Symbol \<Rightarrow> 'arch CompilationType \<Rightarrow> bool) \<Rightarrow> 'arch NdkSymbolDatabase \<Rightarrow>
   string \<times> 'raw Symbol \<Rightarrow> 'arch CompilationType \<Rightarrow> bool" where
  "symbol_extra_at symbol_calculateAvailability hasDeclaration symbol_database symbol_it type =
     (case symbol_calculateAvailability (snd symbol_it) of
        None \<Rightarrow> False
      | Some symbol_availability \<Rightarrow>
          (case map_of symbol_database (fst symbol_it) of
             None \<Rightarrow> False
           | Some platform_availability \<Rightarrow>
               extra_at hasDeclaration symbol_availability (snd symbol_it)
                 platform_availability type))"

definition divergence ::
  "bool \<Rightarrow> ('raw Symbol \<Rightarrow> 'arch DeclarationAvailability option) \<Rightarrow>
   ('raw Symbol \<Rightarrow> 'arch CompilationType \<Rightarrow> bool) \<Rightarrow> 'arch CompilationType list \<Rightarrow>
   'arch NdkSymbolDatabase \<Rightarrow> (string \<times> 'raw Symbol) list \<Rightarrow> bool" where
  "divergence verbose symbol_calculateAvailability hasDeclaration types symbol_database
     header_symbols =
     list_ex (\<lambda>symbol_it.
        list_ex (\<lambda>type.
           symbol_missing_at symbol_calculateAvailability hasDeclaration symbol_database
             symbol_it type \<or>
           (verbose \<and>
            symbol_extra_at symbol_calculateAvailability hasDeclaration symbol_database
              symbol_it type))
          types)
       header_symbols"

section \<open>The checking phase of main\<close>

text \<open>
  main from the call of compileHeaders on. Its arguments are the options as the
  command line has set them (verbose, dump, force, platform_dir,
  preprocessor_output_path, header_dir), the configurations and the platform symbol
  database computed before, and what compileHeaders gives: the declaration database
  and the flag failed. preprocessHeaders is the function of Preprocessor.h. The
  result is the value of failed that main returns, or the error of an errx.
\<close>

definition main ::
  "bool \<Rightarrow> ('raw Declaration \<Rightarrow> 'arch DeclarationAvailability option) \<Rightarrow>
   ('raw Symbol \<Rightarrow> 'arch DeclarationAvailability option) \<Rightarrow>
   ('raw Symbol \<Rightarrow> 'arch CompilationType \<Rightarrow> bool) \<Rightarrow>
   ('arch DeclarationAvailability \<Rightarrow> bool) \<Rightarrow>
   (string \<Rightarrow> string \<Rightarrow> 'raw HeaderDatabase \<Rightarrow> bool) \<Rightarrow>
   bool \<Rightarrow> bool \<Rightarrow> string \<Rightarrow> string \<Rightarrow> string \<Rightarrow>
   'arch CompilationType list \<Rightarrow> 'arch NdkSymbolDatabase \<Rightarrow> 'raw HeaderDatabase \<Rightarrow> bool \<Rightarrow>
   error + bool" where
  "main verbose decl_calculateAvailability symbol_calculateAvailability hasDeclaration
     availability_empty preprocessHeaders dump force platform_dir preprocessor_output_path
     header_dir compilation_types symbol_database declaration_database compile_failed =
     (case
        (if dump then Inr compile_failed
         else
           (let failed =
                  (if \<not> sanityCheck decl_calculateAvailability symbol_calculateAvailability
                          availability_empty declaration_database
                   then True else compile_failed)
            in if platform_dir \<noteq> []
               then (case checkVersions verbose symbol_calculateAvailability hasDeclaration
                            compilation_types declaration_database symbol_database of
                       Inl e \<Rightarrow> Inl e
                     | Inr ok \<Rightarrow> Inr (if \<not> ok then True else failed))
               else Inr failed))
      of
        Inl e \<Rightarrow> Inl e
      | Inr failed \<Rightarrow>
          Inr (if preprocessor_output_path \<noteq> [] \<and> (force \<or> \<not> failed)
               then \<not> preprocessHeaders preprocessor_output_path header_dir declaration_database
               else failed))"

text \<open>
  The exit status of the process: errx(1, ...) gives 1, and the bool that main
  returns becomes 1 or 0.
\<close>

fun exit_status :: "error + bool \<Rightarrow> int" where
  "exit_status (Inl (Fatal msg)) = 1"
| "exit_status (Inr failed) = (if failed then 1 else 0)"

section \<open>Inputs of the scenarios\<close>

text \<open>
  The concrete inputs at which the theorems below are evaluated: architectures are
  named by strings, a declaration carries no attributes, and the functions of
  DeclarationDatabase.h are given by their values on these inputs.
\<close>

abbreviation no_constraint :: AvailabilityValues where
  "no_constraint \<equiv> \<lparr>future = False, introduced = 0, deprecated = 0, obsoleted = 0\<rparr>"

abbreviation introduced_in :: "int \<Rightarrow> AvailabilityValues" where
  "introduced_in level \<equiv> \<lparr>future = False, introduced = level, deprecated = 0, obsoleted = 0\<rparr>"

abbreviation marked_future :: AvailabilityValues where
  "marked_future \<equiv> \<lparr>future = True, introduced = 0, deprecated = 0, obsoleted = 0\<rparr>"

abbreviation configuration :: "string \<Rightarrow> int \<Rightarrow> string CompilationType" where
  "configuration a level \<equiv> \<lparr>arch = a, api_level = level, file_offset_bits = 32\<rparr>"

abbreviation declared :: "string \<Rightarrow> unit Symbol" where
  "declared symbol_name \<equiv>
     \<lparr>name = symbol_name, declarations = [\<lparr>is_definition = False, attributes = ()\<rparr>]\<rparr>"

abbreviation globally_introduced :: "int \<Rightarrow> string DeclarationAvailability" where
  "globally_introduced level \<equiv>
     \<lparr>global_availability = introduced_in level, arch_availability = (\<lambda>a. no_constraint)\<rparr>"

abbreviation always_available :: "string DeclarationAvailability" where
  "always_available \<equiv>
     \<lparr>global_availability = no_constraint, arch_availability = (\<lambda>a. no_constraint)\<rparr>"

abbreviation unconstrained :: "string DeclarationAvailability \<Rightarrow> bool" where
  "unconstrained \<equiv> (\<lambda>avail. global_availability avail = no_constraint)"

abbreviation everywhere :: "unit Symbol \<Rightarrow> string CompilationType \<Rightarrow> bool" where
  "everywhere \<equiv> (\<lambda>symbol type. True)"

abbreviation future_on_A :: "string DeclarationAvailability" where
  "future_on_A \<equiv>
     \<lparr>global_availability = no_constraint,
      arch_availability = (\<lambda>a. if a = ''A'' then marked_future else no_constraint)\<rparr>"

abbreviation introduced_on_A :: "int \<Rightarrow> string DeclarationAvailability" where
  "introduced_on_A level \<equiv>
     \<lparr>global_availability = no_constraint,
      arch_availability = (\<lambda>a. if a = ''A'' then introduced_in level else no_constraint)\<rparr>"

section \<open>Properties of the configuration matrix\<close>

lemma CompilationType_eq_iff:
  "(t = \<lparr>arch = a, api_level = l, file_offset_bits = b\<rparr>) \<longleftrightarrow>
     arch t = a \<and> api_level t = l \<and> file_offset_bits t = b"
  by (cases t) simp

lemma file_offset_bits_loop_iff:
  "t \<in> file_offset_bits_loop a l bs result \<longleftrightarrow>
     t \<in> result \<or> (arch t = a \<and> api_level t = l \<and> file_offset_bits t \<in> set bs)"
proof (induction bs arbitrary: result)
  case Nil
  show ?case by simp
next
  case (Cons b bs)
  show ?case
    unfolding file_offset_bits_loop.simps Cons.IH insert_iff CompilationType_eq_iff set_simps
    by blast
qed

lemma api_level_loop_iff:
  "t \<in> api_level_loop min_api a ls result \<longleftrightarrow>
     t \<in> result \<or>
     (arch t = a \<and> api_level t \<in> set ls \<and> min_api \<le> api_level t \<and>
      file_offset_bits t \<in> {32, 64})"
proof (induction ls arbitrary: result)
  case Nil
  show ?case by simp
next
  case (Cons l ls)
  show ?case
  proof (cases "l < min_api")
    case True
    have "t \<in> api_level_loop min_api a (l # ls) result \<longleftrightarrow>
        t \<in> api_level_loop min_api a ls result"
      using True by simp
    also have "\<dots> \<longleftrightarrow> t \<in> result \<or>
       (arch t = a \<and> api_level t \<in> set ls \<and> min_api \<le> api_level t \<and>
        file_offset_bits t \<in> {32, 64})"
      by (rule Cons.IH)
    also have "\<dots> \<longleftrightarrow> t \<in> result \<or>
       (arch t = a \<and> api_level t \<in> set (l # ls) \<and> min_api \<le> api_level t \<and>
        file_offset_bits t \<in> {32, 64})"
      using True by auto
    finally show ?thesis .
  next
    case False
    have "t \<in> api_level_loop min_api a (l # ls) result \<longleftrightarrow>
        t \<in> api_level_loop min_api a ls (file_offset_bits_loop a l [32, 64] result)"
      using False by simp
    also have "\<dots> \<longleftrightarrow> t \<in> file_offset_bits_loop a l [32, 64] result \<or>
       (arch t = a \<and> api_level t \<in> set ls \<and> min_api \<le> api_level t \<and>
        file_offset_bits t \<in> {32, 64})"
      by (rule Cons.IH)
    also have "\<dots> \<longleftrightarrow> t \<in> result \<or>
       (arch t = a \<and> api_level t \<in> set (l # ls) \<and> min_api \<le> api_level t \<and>
        file_offset_bits t \<in> {32, 64})"
      unfolding file_offset_bits_loop_iff using False by auto
    finally show ?thesis .
  qed
qed

lemma arch_loop_iff:
  "t \<in> arch_loop arch_min_api as ls result \<longleftrightarrow>
     t \<in> result \<or>
     (arch t \<in> set as \<and> api_level t \<in> set ls \<and> arch_min_api (arch t) \<le> api_level t \<and>
      file_offset_bits t \<in> {32, 64})"
proof (induction as arbitrary: result)
  case Nil
  show ?case by simp
next
  case (Cons a as)
  have "t \<in> arch_loop arch_min_api (a # as) ls result \<longleftrightarrow>
      t \<in> api_level_loop (arch_min_api a) a ls result \<or>
     (arch t \<in> set as \<and> api_level t \<in> set ls \<and> arch_min_api (arch t) \<le> api_level t \<and>
      file_offset_bits t \<in> {32, 64})"
    unfolding arch_loop.simps by (rule Cons.IH)
  also have "\<dots> \<longleftrightarrow> t \<in> result \<or>
     (arch t \<in> set (a # as) \<and> api_level t \<in> set ls \<and> arch_min_api (arch t) \<le> api_level t \<and>
      file_offset_bits t \<in> {32, 64})"
    unfolding api_level_loop_iff by auto
  finally show ?case .
qed

lemma generateCompilationTypes_iff:
  "t \<in> generateCompilationTypes arch_min_api as ls \<longleftrightarrow>
     arch t \<in> set as \<and> api_level t \<in> set ls \<and> arch_min_api (arch t) \<le> api_level t \<and>
     file_offset_bits t \<in> {32, 64}"
  by (simp add: generateCompilationTypes_def arch_loop_iff)

lemma generateCompilationTypes_scenario:
  assumes "a \<noteq> b" and "arch_min_api a = 9" and "arch_min_api b = 21"
  shows "generateCompilationTypes arch_min_api [a, b] [9, 21] =
    {\<lparr>arch = a, api_level = 9, file_offset_bits = 32\<rparr>,
     \<lparr>arch = a, api_level = 9, file_offset_bits = 64\<rparr>,
     \<lparr>arch = a, api_level = 21, file_offset_bits = 32\<rparr>,
     \<lparr>arch = a, api_level = 21, file_offset_bits = 64\<rparr>,
     \<lparr>arch = b, api_level = 21, file_offset_bits = 32\<rparr>,
     \<lparr>arch = b, api_level = 21, file_offset_bits = 64\<rparr>}"
  using assms by (simp add: generateCompilationTypes_def insert_commute)

text \<open>
  C5. Every configuration that generateCompilationTypes produces has an API level
  at least the minimum of its architecture; a selected level below the minimum of
  an architecture yields no configuration of that architecture and level, and
  nothing else happens (the function has no error result); every surviving pair of
  architecture and level appears with file_offset_bits 32 and with 64; and for two
  architectures with minimum 9 and minimum 21 and the levels 9 and 21 the result
  has exactly 6 elements.
\<close>

theorem generateCompilationTypes_matrix:
  "(\<forall>t \<in> generateCompilationTypes arch_min_api as ls. arch_min_api (arch t) \<le> api_level t) \<and>
   (\<forall>a \<in> set as. \<forall>l \<in> set ls. l < arch_min_api a \<longrightarrow>
      (\<forall>t \<in> generateCompilationTypes arch_min_api as ls. \<not> (arch t = a \<and> api_level t = l))) \<and>
   (\<forall>a \<in> set as. \<forall>l \<in> set ls. arch_min_api a \<le> l \<longrightarrow>
      \<lparr>arch = a, api_level = l, file_offset_bits = 32\<rparr>
        \<in> generateCompilationTypes arch_min_api as ls \<and>
      \<lparr>arch = a, api_level = l, file_offset_bits = 64\<rparr>
        \<in> generateCompilationTypes arch_min_api as ls) \<and>
   (a \<noteq> b \<and> arch_min_api a = 9 \<and> arch_min_api b = 21 \<longrightarrow>
      card (generateCompilationTypes arch_min_api [a, b] [9, 21]) = 6)"
proof (intro conjI ballI impI)
  fix t assume "t \<in> generateCompilationTypes arch_min_api as ls"
  then show "arch_min_api (arch t) \<le> api_level t"
    by (simp add: generateCompilationTypes_iff)
next
  fix a' l t
  assume "l < arch_min_api a'" and "t \<in> generateCompilationTypes arch_min_api as ls"
  then show "\<not> (arch t = a' \<and> api_level t = l)"
    by (auto simp: generateCompilationTypes_iff)
next
  fix a' l
  assume "a' \<in> set as" and "l \<in> set ls" and "arch_min_api a' \<le> l"
  then show "\<lparr>arch = a', api_level = l, file_offset_bits = 32\<rparr>
      \<in> generateCompilationTypes arch_min_api as ls"
    by (simp add: generateCompilationTypes_iff)
next
  fix a' l
  assume "a' \<in> set as" and "l \<in> set ls" and "arch_min_api a' \<le> l"
  then show "\<lparr>arch = a', api_level = l, file_offset_bits = 64\<rparr>
      \<in> generateCompilationTypes arch_min_api as ls"
    by (simp add: generateCompilationTypes_iff)
next
  assume "a \<noteq> b \<and> arch_min_api a = 9 \<and> arch_min_api b = 21"
  then show "card (generateCompilationTypes arch_min_api [a, b] [9, 21]) = 6"
    by (simp add: generateCompilationTypes_scenario)
qed

theorem generateCompilationTypes_matrix_witness:
  "''A'' \<in> set [''A'', ''B''] \<and> ''B'' \<in> set [''A'', ''B''] \<and> (9::int) \<in> set [9, 21] \<and>
   ''A'' \<noteq> ''B'' \<and> (9::int) < (if ''B'' = ''A'' then 9 else 21) \<and>
   \<lparr>arch = ''A'', api_level = 9, file_offset_bits = 32\<rparr>
     \<in> generateCompilationTypes (\<lambda>a. if a = ''A'' then 9 else 21) [''A'', ''B''] [9, 21] \<and>
   \<lparr>arch = ''A'', api_level = 9, file_offset_bits = 64\<rparr>
     \<in> generateCompilationTypes (\<lambda>a. if a = ''A'' then 9 else 21) [''A'', ''B''] [9, 21] \<and>
   \<lparr>arch = ''B'', api_level = 9, file_offset_bits = 32\<rparr>
     \<notin> generateCompilationTypes (\<lambda>a. if a = ''A'' then 9 else 21) [''A'', ''B''] [9, 21] \<and>
   \<lparr>arch = ''B'', api_level = 21, file_offset_bits = 64\<rparr>
     \<in> generateCompilationTypes (\<lambda>a. if a = ''A'' then 9 else 21) [''A'', ''B''] [9, 21] \<and>
   card (generateCompilationTypes (\<lambda>a. if a = ''A'' then 9 else 21) [''A'', ''B''] [9, 21]) = 6"
proof -
  note m = generateCompilationTypes_matrix
    [of "\<lambda>a. if a = ''A'' then 9 else 21" "[''A'', ''B'']" "[9, 21]" "''A''" "''B''"]
  have mem: "\<lparr>arch = ''A'', api_level = 9, file_offset_bits = 32\<rparr>
     \<in> generateCompilationTypes (\<lambda>a. if a = ''A'' then 9 else 21) [''A'', ''B''] [9, 21]"
    using m by simp
  have mem': "\<lparr>arch = ''A'', api_level = 9, file_offset_bits = 64\<rparr>
     \<in> generateCompilationTypes (\<lambda>a. if a = ''A'' then 9 else 21) [''A'', ''B''] [9, 21]"
    using m by simp
  have mem'': "\<lparr>arch = ''B'', api_level = 21, file_offset_bits = 64\<rparr>
     \<in> generateCompilationTypes (\<lambda>a. if a = ''A'' then 9 else 21) [''A'', ''B''] [9, 21]"
    using m by simp
  have c: "card (generateCompilationTypes (\<lambda>a. if a = ''A'' then 9 else 21)
      [''A'', ''B''] [9, 21]) = 6"
    using m by simp
  have skip: "\<forall>t \<in> generateCompilationTypes (\<lambda>a. if a = ''A'' then 9 else 21) [''A'', ''B''] [9, 21].
      \<not> (arch t = ''B'' \<and> api_level t = 9)"
    using m by simp
  have skipped: "\<lparr>arch = ''B'', api_level = 9, file_offset_bits = 32\<rparr>
     \<notin> generateCompilationTypes (\<lambda>a. if a = ''A'' then 9 else 21) [''A'', ''B''] [9, 21]"
    using skip by fastforce
  show ?thesis using mem mem' mem'' c skipped by simp
qed

text \<open>
  C10. generateCompilationTypes is monotone in the selected levels and in the
  selected architectures, and its result lies in the cartesian product of the
  selected architectures, the selected levels and the two widths 32 and 64.
\<close>

theorem generateCompilationTypes_mono:
  "(set ls \<subseteq> set ls' \<longrightarrow>
      generateCompilationTypes arch_min_api as ls \<subseteq> generateCompilationTypes arch_min_api as ls') \<and>
   (set as \<subseteq> set as' \<longrightarrow>
      generateCompilationTypes arch_min_api as ls \<subseteq> generateCompilationTypes arch_min_api as' ls) \<and>
   generateCompilationTypes arch_min_api as ls \<subseteq>
     (\<lambda>(a, l, b). \<lparr>arch = a, api_level = l, file_offset_bits = b\<rparr>) `
       (set as \<times> set ls \<times> {32, 64})"
proof (intro conjI impI subsetI)
  fix t
  assume "set ls \<subseteq> set ls'" and "t \<in> generateCompilationTypes arch_min_api as ls"
  then show "t \<in> generateCompilationTypes arch_min_api as ls'"
    unfolding generateCompilationTypes_iff by blast
next
  fix t
  assume "set as \<subseteq> set as'" and "t \<in> generateCompilationTypes arch_min_api as ls"
  then show "t \<in> generateCompilationTypes arch_min_api as' ls"
    unfolding generateCompilationTypes_iff by blast
next
  fix t
  assume t: "t \<in> generateCompilationTypes arch_min_api as ls"
  have eq: "t = (\<lambda>(a, l, b). \<lparr>arch = a, api_level = l, file_offset_bits = b\<rparr>)
      (arch t, api_level t, file_offset_bits t)"
    by (simp add: CompilationType_eq_iff)
  have "(arch t, api_level t, file_offset_bits t) \<in> set as \<times> set ls \<times> {32, 64}"
    using t unfolding generateCompilationTypes_iff by blast
  with eq show "t \<in> (\<lambda>(a, l, b). \<lparr>arch = a, api_level = l, file_offset_bits = b\<rparr>) `
       (set as \<times> set ls \<times> {32, 64})"
    by (rule image_eqI)
qed

theorem generateCompilationTypes_mono_witness:
  "set [21::int] \<subseteq> set [9, 21] \<and> set [''A''] \<subseteq> set [''A'', ''B''] \<and>
   \<lparr>arch = ''A'', api_level = 21, file_offset_bits = 32\<rparr>
     \<in> generateCompilationTypes (\<lambda>a. if a = ''A'' then 9 else 21) [''A''] [21] \<and>
   generateCompilationTypes (\<lambda>a. if a = ''A'' then 9 else 21) [''A''] [21]
     \<subseteq> generateCompilationTypes (\<lambda>a. if a = ''A'' then 9 else 21) [''A''] [9, 21] \<and>
   generateCompilationTypes (\<lambda>a. if a = ''A'' then 9 else 21) [''A''] [21]
     \<subseteq> generateCompilationTypes (\<lambda>a. if a = ''A'' then 9 else 21) [''A'', ''B''] [21]"
proof -
  note m = generateCompilationTypes_mono
    [of "[21]" "[9, 21]" "\<lambda>a. if a = ''A'' then 9 else 21" "[''A'']" "[''A'', ''B'']"]
  have mem: "\<lparr>arch = ''A'', api_level = 21, file_offset_bits = 32\<rparr>
     \<in> generateCompilationTypes (\<lambda>a. if a = ''A'' then 9 else 21) [''A''] [21]"
    by (simp add: generateCompilationTypes_def)
  show ?thesis using m mem by simp
qed

section \<open>Properties of the internal consistency checker\<close>

lemma checkSymbol_loop_iff:
  "checkSymbol_loop dc em decls inl \<longleftrightarrow>
     \<not> ((inl \<noteq> None \<and> list_ex is_definition decls) \<or>
        1 < length (filter is_definition decls) \<or>
        list_ex (\<lambda>d. dc d = None) decls \<or>
        list_ex (\<lambda>d. is_definition d \<and> (case dc d of None \<Rightarrow> False | Some a \<Rightarrow> \<not> em a)) decls)"
proof (induction decls arbitrary: inl)
  case Nil
  show ?case by simp
next
  case (Cons d decls)
  show ?case
  proof (cases "dc d")
    case None
    then show ?thesis by simp
  next
    case (Some a)
    show ?thesis
    proof (cases "is_definition d")
      case True
      have len: "(0 < length (filter is_definition decls)) = list_ex is_definition decls"
        by (simp add: list_ex_iff filter_empty_conv)
      show ?thesis using True Some len by (auto simp: Cons.IH)
    next
      case False
      then show ?thesis using Some by (auto simp: Cons.IH)
    qed
  qed
qed

lemma sanityCheck_loop_iff:
  "sanityCheck_loop check syms err \<longleftrightarrow> err \<or> list_ex (\<lambda>symbol_it. \<not> check (snd symbol_it)) syms"
  by (induction syms arbitrary: err) simp_all

section \<open>Properties of the cross-platform checker\<close>

subsection \<open>The loop over the configurations\<close>

lemma recorded_insert_availability:
  "recorded (insert_availability n t m) n' =
     (if n' = n then insert t (recorded m n) else recorded m n')"
  by (simp add: recorded_def insert_availability_def)

lemma insert_availability_None:
  "(insert_availability n t m n' = None) = (n' \<noteq> n \<and> m n' = None)"
  by (simp add: insert_availability_def)

lemma check_type_missing:
  "recorded (fst (check_type hasD a s pa n t st)) n' =
     (if n' = n \<and> missing_at hasD a s pa t then insert t (recorded (fst st) n')
      else recorded (fst st) n')"
  by (simp add: check_type_def missing_at_def recorded_insert_availability Let_def)

lemma check_type_extra:
  "recorded (snd (check_type hasD a s pa n t st)) n' =
     (if n' = n \<and> extra_at hasD a s pa t then insert t (recorded (snd st) n')
      else recorded (snd st) n')"
  by (simp add: check_type_def extra_at_def recorded_insert_availability Let_def)

lemma check_type_missing_None:
  "(fst (check_type hasD a s pa n t st) n' = None) =
     (fst st n' = None \<and> \<not> (n' = n \<and> missing_at hasD a s pa t))"
  by (auto simp: check_type_def missing_at_def insert_availability_None Let_def)

lemma check_type_extra_None:
  "(snd (check_type hasD a s pa n t st) n' = None) =
     (snd st n' = None \<and> \<not> (n' = n \<and> extra_at hasD a s pa t))"
  by (auto simp: check_type_def extra_at_def insert_availability_None Let_def)

lemma types_loop_missing:
  "recorded (fst (types_loop hasD a s pa n types st)) n' =
     recorded (fst st) n' \<union> (if n' = n then {t \<in> set types. missing_at hasD a s pa t} else {})"
proof (induction types arbitrary: st)
  case Nil
  show ?case by simp
next
  case (Cons t types)
  show ?case
    unfolding types_loop.simps Cons.IH check_type_missing by auto
qed

lemma types_loop_extra:
  "recorded (snd (types_loop hasD a s pa n types st)) n' =
     recorded (snd st) n' \<union> (if n' = n then {t \<in> set types. extra_at hasD a s pa t} else {})"
proof (induction types arbitrary: st)
  case Nil
  show ?case by simp
next
  case (Cons t types)
  show ?case
    unfolding types_loop.simps Cons.IH check_type_extra by auto
qed

lemma types_loop_missing_None:
  "(fst (types_loop hasD a s pa n types st) n' = None) =
     (fst st n' = None \<and> \<not> (n' = n \<and> list_ex (missing_at hasD a s pa) types))"
proof (induction types arbitrary: st)
  case Nil
  show ?case by simp
next
  case (Cons t types)
  show ?case
    unfolding types_loop.simps Cons.IH check_type_missing_None by auto
qed

lemma types_loop_extra_None:
  "(snd (types_loop hasD a s pa n types st) n' = None) =
     (snd st n' = None \<and> \<not> (n' = n \<and> list_ex (extra_at hasD a s pa) types))"
proof (induction types arbitrary: st)
  case Nil
  show ?case by simp
next
  case (Cons t types)
  show ?case
    unfolding types_loop.simps Cons.IH check_type_extra_None by auto
qed

subsection \<open>The loop over the symbols of the header database\<close>

lemma symbols_loop_total:
  "list_all (\<lambda>it. sc (snd it) \<noteq> None) syms \<Longrightarrow>
     \<exists>r. symbols_loop sc hasD types pdb syms st = Inr r"
proof (induction syms arbitrary: st)
  case Nil
  show ?case by (cases st) simp
next
  case (Cons it syms)
  obtain cu st' where st: "st = (cu, st')" by (cases st)
  from Cons.prems obtain a where a: "sc (snd it) = Some a" by auto
  from Cons.prems have rest: "list_all (\<lambda>it. sc (snd it) \<noteq> None) syms" by simp
  show ?case
  proof (cases "map_of pdb (fst it)")
    case None
    then show ?thesis using a st Cons.IH [OF rest] by simp
  next
    case (Some pa)
    then show ?thesis using a st Cons.IH [OF rest] by simp
  qed
qed

lemma symbols_loop_fatal:
  "list_ex (\<lambda>it. sc (snd it) = None) syms \<Longrightarrow>
     symbols_loop sc hasD types pdb syms st =
       Inl (Fatal ''failed to calculate symbol availability'')"
proof (induction syms arbitrary: st)
  case Nil
  then show ?case by simp
next
  case (Cons it syms)
  obtain cu st' where st: "st = (cu, st')" by (cases st)
  show ?case
  proof (cases "sc (snd it)")
    case None
    then show ?thesis using st by simp
  next
    case (Some a)
    with Cons.prems have rest: "list_ex (\<lambda>it. sc (snd it) = None) syms" by simp
    show ?thesis
      using Some st Cons.IH [OF rest] by (cases "map_of pdb (fst it)") simp_all
  qed
qed

lemma symbols_loop_unavailable:
  "symbols_loop sc hasD types pdb syms (cu, st) = Inr (cu', st') \<Longrightarrow>
     cu' = cu \<union> {n \<in> fst ` set syms. map_of pdb n = None}"
proof (induction syms arbitrary: cu st)
  case Nil
  then show ?case by simp
next
  case (Cons it syms)
  from Cons.prems obtain a where a: "sc (snd it) = Some a"
    by (cases "sc (snd it)") simp_all
  show ?case
  proof (cases "map_of pdb (fst it)")
    case None
    with Cons.prems a have
      "symbols_loop sc hasD types pdb syms (insert (fst it) cu, st) = Inr (cu', st')"
      by simp
    from Cons.IH [OF this] None show ?thesis by auto
  next
    case (Some pa)
    with Cons.prems a have
      "symbols_loop sc hasD types pdb syms
         (cu, types_loop hasD a (snd it) pa (fst it) types st) = Inr (cu', st')"
      by simp
    from Cons.IH [OF this] Some show ?thesis by auto
  qed
qed

lemma symbols_loop_missing:
  "symbols_loop sc hasD types pdb syms (cu, st) = Inr (cu', st') \<Longrightarrow>
     recorded (fst st') n = recorded (fst st) n \<union>
       {t \<in> set types. list_ex (\<lambda>it. fst it = n \<and> symbol_missing_at sc hasD pdb it t) syms}"
proof (induction syms arbitrary: cu st)
  case Nil
  then show ?case by simp
next
  case (Cons it syms)
  from Cons.prems obtain a where a: "sc (snd it) = Some a"
    by (cases "sc (snd it)") simp_all
  show ?case
  proof (cases "map_of pdb (fst it)")
    case None
    with Cons.prems a have
      "symbols_loop sc hasD types pdb syms (insert (fst it) cu, st) = Inr (cu', st')"
      by simp
    from Cons.IH [OF this] None a show ?thesis
      by (auto simp: symbol_missing_at_def)
  next
    case (Some pa)
    with Cons.prems a have
      "symbols_loop sc hasD types pdb syms
         (cu, types_loop hasD a (snd it) pa (fst it) types st) = Inr (cu', st')"
      by simp
    from Cons.IH [OF this] Some a show ?thesis
      by (auto simp: symbol_missing_at_def types_loop_missing)
  qed
qed

lemma symbols_loop_extra:
  "symbols_loop sc hasD types pdb syms (cu, st) = Inr (cu', st') \<Longrightarrow>
     recorded (snd st') n = recorded (snd st) n \<union>
       {t \<in> set types. list_ex (\<lambda>it. fst it = n \<and> symbol_extra_at sc hasD pdb it t) syms}"
proof (induction syms arbitrary: cu st)
  case Nil
  then show ?case by simp
next
  case (Cons it syms)
  from Cons.prems obtain a where a: "sc (snd it) = Some a"
    by (cases "sc (snd it)") simp_all
  show ?case
  proof (cases "map_of pdb (fst it)")
    case None
    with Cons.prems a have
      "symbols_loop sc hasD types pdb syms (insert (fst it) cu, st) = Inr (cu', st')"
      by simp
    from Cons.IH [OF this] None a show ?thesis
      by (auto simp: symbol_extra_at_def)
  next
    case (Some pa)
    with Cons.prems a have
      "symbols_loop sc hasD types pdb syms
         (cu, types_loop hasD a (snd it) pa (fst it) types st) = Inr (cu', st')"
      by simp
    from Cons.IH [OF this] Some a show ?thesis
      by (auto simp: symbol_extra_at_def types_loop_extra)
  qed
qed

lemma symbols_loop_missing_None:
  "symbols_loop sc hasD types pdb syms (cu, st) = Inr (cu', st') \<Longrightarrow>
     (fst st' n = None) =
     (fst st n = None \<and>
      \<not> list_ex (\<lambda>it. fst it = n \<and> list_ex (symbol_missing_at sc hasD pdb it) types) syms)"
proof (induction syms arbitrary: cu st)
  case Nil
  then show ?case by simp
next
  case (Cons it syms)
  from Cons.prems obtain a where a: "sc (snd it) = Some a"
    by (cases "sc (snd it)") simp_all
  show ?case
  proof (cases "map_of pdb (fst it)")
    case None
    with Cons.prems a have
      "symbols_loop sc hasD types pdb syms (insert (fst it) cu, st) = Inr (cu', st')"
      by simp
    from Cons.IH [OF this] None a show ?thesis
      by (auto simp: symbol_missing_at_def list_ex_iff)
  next
    case (Some pa)
    with Cons.prems a have
      "symbols_loop sc hasD types pdb syms
         (cu, types_loop hasD a (snd it) pa (fst it) types st) = Inr (cu', st')"
      by simp
    from Cons.IH [OF this] Some a show ?thesis
      by (auto simp: symbol_missing_at_def types_loop_missing_None list_ex_iff)
  qed
qed

lemma symbols_loop_extra_None:
  "symbols_loop sc hasD types pdb syms (cu, st) = Inr (cu', st') \<Longrightarrow>
     (snd st' n = None) =
     (snd st n = None \<and>
      \<not> list_ex (\<lambda>it. fst it = n \<and> list_ex (symbol_extra_at sc hasD pdb it) types) syms)"
proof (induction syms arbitrary: cu st)
  case Nil
  then show ?case by simp
next
  case (Cons it syms)
  from Cons.prems obtain a where a: "sc (snd it) = Some a"
    by (cases "sc (snd it)") simp_all
  show ?case
  proof (cases "map_of pdb (fst it)")
    case None
    with Cons.prems a have
      "symbols_loop sc hasD types pdb syms (insert (fst it) cu, st) = Inr (cu', st')"
      by simp
    from Cons.IH [OF this] None a show ?thesis
      by (auto simp: symbol_extra_at_def list_ex_iff)
  next
    case (Some pa)
    with Cons.prems a have
      "symbols_loop sc hasD types pdb syms
         (cu, types_loop hasD a (snd it) pa (fst it) types st) = Inr (cu', st')"
      by simp
    from Cons.IH [OF this] Some a show ?thesis
      by (auto simp: symbol_extra_at_def types_loop_extra_None list_ex_iff)
  qed
qed

subsection \<open>The loop over the platform symbol database\<close>

lemma report_step:
  "report_extra v extra n (report_missing missing n (False, failed, out)) =
     (missing n \<noteq> None \<or> (v \<and> extra n \<noteq> None),
      failed \<or> missing n \<noteq> None \<or> (v \<and> extra n \<noteq> None),
      out @ (case missing n of None \<Rightarrow> [] | Some S \<Rightarrow> [MarkedAvailableButMissing n S]) @
        (if v then (case extra n of None \<Rightarrow> []
                    | Some S \<Rightarrow> [MarkedUnavailableButAvailable n S])
         else []))"
  by (cases "missing n"; cases "extra n"; simp)

lemma report_loop_quiet:
  assumes "\<not> (missing (fst it) \<noteq> None \<or> (v \<and> extra (fst it) \<noteq> None))"
  shows "report_loop v hs missing extra (it # rest) (failed, out) =
     report_loop v hs missing extra rest (failed, out)"
  unfolding report_loop.simps report_step using assms by auto

lemma report_loop_fatal:
  assumes "missing (fst it) \<noteq> None \<or> (v \<and> extra (fst it) \<noteq> None)"
    and "map_of hs (fst it) = None"
  shows "report_loop v hs missing extra (it # rest) (failed, out) =
     Inl (Fatal ''failed to find symbol in header database'')"
  unfolding report_loop.simps report_step using assms by auto

lemma report_loop_error:
  assumes "missing (fst it) \<noteq> None \<or> (v \<and> extra (fst it) \<noteq> None)"
    and "map_of hs (fst it) = Some symbol"
  shows "report_loop v hs missing extra (it # rest) (failed, out) =
     report_loop v hs missing extra rest
       (True,
        (out @ (case missing (fst it) of None \<Rightarrow> []
               | Some S \<Rightarrow> [MarkedAvailableButMissing (fst it) S]) @
          (if v then (case extra (fst it) of None \<Rightarrow> []
                      | Some S \<Rightarrow> [MarkedUnavailableButAvailable (fst it) S])
           else [])) @ [SymbolDump (name symbol)])"
  unfolding report_loop.simps report_step using assms by auto

lemma extra_message_in_missing_part:
  "(MarkedUnavailableButAvailable n S \<in>
     set (case m of None \<Rightarrow> [] | Some S' \<Rightarrow> [MarkedAvailableButMissing k S'])) = False"
  by (cases m) simp_all

lemma extra_message_in_extra_part:
  "(MarkedUnavailableButAvailable n S \<in>
     set (if v then (case e of None \<Rightarrow> [] | Some S' \<Rightarrow> [MarkedUnavailableButAvailable k S'])
          else [])) = (v \<and> n = k \<and> e = Some S)"
  by (cases v; cases e; auto)

lemma missing_message_in_missing_part:
  "(MarkedAvailableButMissing n S \<in>
     set (case m of None \<Rightarrow> [] | Some S' \<Rightarrow> [MarkedAvailableButMissing k S'])) =
   (n = k \<and> m = Some S)"
  by (cases m; auto)

lemma missing_message_in_extra_part:
  "(MarkedAvailableButMissing n S \<in>
     set (if v then (case e of None \<Rightarrow> [] | Some S' \<Rightarrow> [MarkedUnavailableButAvailable k S'])
          else [])) = False"
  by (cases v; cases e; simp)

lemma report_loop_total:
  assumes "\<forall>n. missing n \<noteq> None \<or> extra n \<noteq> None \<longrightarrow> map_of hs n \<noteq> None"
  shows "\<exists>r. report_loop v hs missing extra pdb st = Inr r"
proof (induction pdb arbitrary: st)
  case Nil
  show ?case by (cases st) simp
next
  case (Cons it pdb)
  obtain failed out where st: "st = (failed, out)" by (cases st)
  show ?case
  proof (cases "missing (fst it) \<noteq> None \<or> (v \<and> extra (fst it) \<noteq> None)")
    case True
    with assms obtain symbol where "map_of hs (fst it) = Some symbol" by blast
    note eq = report_loop_error
      [where missing=missing and it=it and v=v and extra=extra and hs=hs, OF True this]
    show ?thesis unfolding st eq by (rule Cons.IH)
  next
    case False
    note eq = report_loop_quiet
      [where missing=missing and it=it and v=v and extra=extra, OF False]
    show ?thesis unfolding st eq by (rule Cons.IH)
  qed
qed

lemma report_loop_failed:
  "report_loop v hs missing extra pdb (failed, out) = Inr (failed', out') \<Longrightarrow>
     failed' = (failed \<or>
        list_ex (\<lambda>it. missing (fst it) \<noteq> None \<or> (v \<and> extra (fst it) \<noteq> None)) pdb)"
proof (induction pdb arbitrary: failed out)
  case Nil
  then show ?case by simp
next
  case (Cons it pdb)
  show ?case
  proof (cases "missing (fst it) \<noteq> None \<or> (v \<and> extra (fst it) \<noteq> None)")
    case True
    show ?thesis
    proof (cases "map_of hs (fst it)")
      case None
      note eq = report_loop_fatal
        [where missing=missing and it=it and v=v and extra=extra and hs=hs, OF True None]
      from Cons.prems show ?thesis unfolding eq by simp
    next
      case (Some symbol)
      note eq = report_loop_error
        [where missing=missing and it=it and v=v and extra=extra and hs=hs, OF True Some]
      from Cons.prems have "failed' = (True \<or>
        list_ex (\<lambda>it. missing (fst it) \<noteq> None \<or> (v \<and> extra (fst it) \<noteq> None)) pdb)"
        unfolding eq by (rule Cons.IH)
      then have "failed'" by simp
      with True show ?thesis by simp
    qed
  next
    case False
    note eq = report_loop_quiet
      [where missing=missing and it=it and v=v and extra=extra, OF False]
    from Cons.prems have "failed' = (failed \<or>
        list_ex (\<lambda>it. missing (fst it) \<noteq> None \<or> (v \<and> extra (fst it) \<noteq> None)) pdb)"
      unfolding eq by (rule Cons.IH)
    with False show ?thesis by auto
  qed
qed

lemma report_loop_extra_message:
  "report_loop v hs missing extra pdb (failed, out) = Inr (failed', out') \<Longrightarrow>
     (MarkedUnavailableButAvailable n S \<in> set out') =
     (MarkedUnavailableButAvailable n S \<in> set out \<or>
      (v \<and> n \<in> fst ` set pdb \<and> extra n = Some S))"
proof (induction pdb arbitrary: failed out)
  case Nil
  then show ?case by simp
next
  case (Cons it pdb)
  show ?case
  proof (cases "missing (fst it) \<noteq> None \<or> (v \<and> extra (fst it) \<noteq> None)")
    case True
    show ?thesis
    proof (cases "map_of hs (fst it)")
      case None
      note eq = report_loop_fatal
        [where missing=missing and it=it and v=v and extra=extra and hs=hs, OF True None]
      from Cons.prems show ?thesis unfolding eq by simp
    next
      case (Some symbol)
      note eq = report_loop_error
        [where missing=missing and it=it and v=v and extra=extra and hs=hs, OF True Some]
      from Cons.prems have
        "(MarkedUnavailableButAvailable n S \<in> set out') =
         (MarkedUnavailableButAvailable n S \<in> set
            ((out @ (case missing (fst it) of None \<Rightarrow> []
               | Some S \<Rightarrow> [MarkedAvailableButMissing (fst it) S]) @
             (if v then (case extra (fst it) of None \<Rightarrow> []
                      | Some S \<Rightarrow> [MarkedUnavailableButAvailable (fst it) S])
              else [])) @ [SymbolDump (name symbol)]) \<or>
          (v \<and> n \<in> fst ` set pdb \<and> extra n = Some S))"
        unfolding eq by (rule Cons.IH)
      then show ?thesis
        unfolding set_append Un_iff extra_message_in_extra_part extra_message_in_missing_part
        by auto
    qed
  next
    case False
    note eq = report_loop_quiet
      [where missing=missing and it=it and v=v and extra=extra, OF False]
    from Cons.prems have
      "(MarkedUnavailableButAvailable n S \<in> set out') =
       (MarkedUnavailableButAvailable n S \<in> set out \<or>
        (v \<and> n \<in> fst ` set pdb \<and> extra n = Some S))"
      unfolding eq by (rule Cons.IH)
    with False show ?thesis by auto
  qed
qed

lemma report_loop_missing_message:
  "report_loop v hs missing extra pdb (failed, out) = Inr (failed', out') \<Longrightarrow>
     (MarkedAvailableButMissing n S \<in> set out') =
     (MarkedAvailableButMissing n S \<in> set out \<or>
      (n \<in> fst ` set pdb \<and> missing n = Some S))"
proof (induction pdb arbitrary: failed out)
  case Nil
  then show ?case by simp
next
  case (Cons it pdb)
  show ?case
  proof (cases "missing (fst it) \<noteq> None \<or> (v \<and> extra (fst it) \<noteq> None)")
    case True
    show ?thesis
    proof (cases "map_of hs (fst it)")
      case None
      note eq = report_loop_fatal
        [where missing=missing and it=it and v=v and extra=extra and hs=hs, OF True None]
      from Cons.prems show ?thesis unfolding eq by simp
    next
      case (Some symbol)
      note eq = report_loop_error
        [where missing=missing and it=it and v=v and extra=extra and hs=hs, OF True Some]
      from Cons.prems have
        "(MarkedAvailableButMissing n S \<in> set out') =
         (MarkedAvailableButMissing n S \<in> set
            ((out @ (case missing (fst it) of None \<Rightarrow> []
               | Some S \<Rightarrow> [MarkedAvailableButMissing (fst it) S]) @
             (if v then (case extra (fst it) of None \<Rightarrow> []
                      | Some S \<Rightarrow> [MarkedUnavailableButAvailable (fst it) S])
              else [])) @ [SymbolDump (name symbol)]) \<or>
          (n \<in> fst ` set pdb \<and> missing n = Some S))"
        unfolding eq by (rule Cons.IH)
      then show ?thesis
        unfolding set_append Un_iff missing_message_in_missing_part missing_message_in_extra_part
        by auto
    qed
  next
    case False
    note eq = report_loop_quiet
      [where missing=missing and it=it and v=v and extra=extra, OF False]
    from Cons.prems have
      "(MarkedAvailableButMissing n S \<in> set out') =
       (MarkedAvailableButMissing n S \<in> set out \<or>
        (n \<in> fst ` set pdb \<and> missing n = Some S))"
      unfolding eq by (rule Cons.IH)
    with False show ?thesis by auto
  qed
qed

subsection \<open>checkVersions as a whole\<close>

lemma symbol_missing_at_platform:
  "symbol_missing_at sc hasD pdb it t \<Longrightarrow> fst it \<in> fst ` set pdb"
  by (auto simp: symbol_missing_at_def split: option.splits dest: map_of_SomeD intro: rev_image_eqI)

lemma symbol_extra_at_platform:
  "symbol_extra_at sc hasD pdb it t \<Longrightarrow> fst it \<in> fst ` set pdb"
  by (auto simp: symbol_extra_at_def split: option.splits dest: map_of_SomeD intro: rev_image_eqI)

lemma map_of_fst_in: "it \<in> set syms \<Longrightarrow> map_of syms (fst it) \<noteq> None"
  by (metis image_eqI map_of_eq_None_iff)

lemma checkVersions_trace_Inr:
  assumes ok: "list_all (\<lambda>it. sc (snd it) \<noteq> None) (symbols db)"
  obtains r where
    "checkVersions_trace v sc hasD types db pdb = Inr r"
    "return_value r = (\<not> divergence v sc hasD types pdb (symbols db))"
    "completely_unavailable r = {n \<in> fst ` set (symbols db). map_of pdb n = None}"
    "\<And>n. recorded (missing_availability r) n =
       {t \<in> set types. list_ex (\<lambda>it. fst it = n \<and> symbol_missing_at sc hasD pdb it t) (symbols db)}"
    "\<And>n. recorded (extra_availability r) n =
       {t \<in> set types. list_ex (\<lambda>it. fst it = n \<and> symbol_extra_at sc hasD pdb it t) (symbols db)}"
    "\<And>n. (missing_availability r n = None) =
       (\<not> list_ex (\<lambda>it. fst it = n \<and> list_ex (symbol_missing_at sc hasD pdb it) types) (symbols db))"
    "\<And>n. (extra_availability r n = None) =
       (\<not> list_ex (\<lambda>it. fst it = n \<and> list_ex (symbol_extra_at sc hasD pdb it) types) (symbols db))"
    "\<And>n S. (MarkedAvailableButMissing n S \<in> set (printed r)) =
       (n \<in> fst ` set pdb \<and> missing_availability r n = Some S)"
    "\<And>n S. (MarkedUnavailableButAvailable n S \<in> set (printed r)) =
       (v \<and> n \<in> fst ` set pdb \<and> extra_availability r n = Some S)"
proof -
  from symbols_loop_total [OF ok] obtain cu m e where
    loop: "symbols_loop sc hasD types pdb (symbols db) ({}, Map.empty, Map.empty) = Inr (cu, m, e)"
    by (metis prod_cases3)
  have loop': "symbols_loop sc hasD types pdb (symbols db) ({}, (Map.empty, Map.empty)) =
      Inr (cu, (m, e))"
    using loop by simp
  have cu: "cu = {n \<in> fst ` set (symbols db). map_of pdb n = None}"
    using symbols_loop_unavailable [OF loop'] by simp
  have m: "recorded m n =
      {t \<in> set types. list_ex (\<lambda>it. fst it = n \<and> symbol_missing_at sc hasD pdb it t) (symbols db)}"
    for n
    using symbols_loop_missing [OF loop', of n] by (simp add: recorded_def)
  have e: "recorded e n =
      {t \<in> set types. list_ex (\<lambda>it. fst it = n \<and> symbol_extra_at sc hasD pdb it t) (symbols db)}"
    for n
    using symbols_loop_extra [OF loop', of n] by (simp add: recorded_def)
  have mN: "(m n = None) =
      (\<not> list_ex (\<lambda>it. fst it = n \<and> list_ex (symbol_missing_at sc hasD pdb it) types) (symbols db))"
    for n
    using symbols_loop_missing_None [OF loop', of n] by simp
  have eN: "(e n = None) =
      (\<not> list_ex (\<lambda>it. fst it = n \<and> list_ex (symbol_extra_at sc hasD pdb it) types) (symbols db))"
    for n
    using symbols_loop_extra_None [OF loop', of n] by simp
  have found: "\<forall>n. m n \<noteq> None \<or> e n \<noteq> None \<longrightarrow> map_of (symbols db) n \<noteq> None"
  proof (intro allI impI)
    fix n assume "m n \<noteq> None \<or> e n \<noteq> None"
    then obtain it where "it \<in> set (symbols db)" and "fst it = n"
      unfolding mN eN list_ex_iff by blast
    then show "map_of (symbols db) n \<noteq> None"
      using map_of_fst_in by blast
  qed
  from report_loop_total [OF found] obtain failed out where
    rep: "report_loop v (symbols db) m e pdb (False, []) = Inr (failed, out)"
    by (metis surj_pair)
  define r where "r = \<lparr>return_value = \<not> failed, printed = out, completely_unavailable = cu,
      missing_availability = m, extra_availability = e\<rparr>"
  have trace: "checkVersions_trace v sc hasD types db pdb = Inr r"
    by (simp add: checkVersions_trace_def loop rep r_def)
  have failed: "failed =
      list_ex (\<lambda>it. m (fst it) \<noteq> None \<or> (v \<and> e (fst it) \<noteq> None)) pdb"
    using report_loop_failed [OF rep] by simp
  have "failed = divergence v sc hasD types pdb (symbols db)"
  proof
    assume failed
    then obtain it where "it \<in> set pdb" and "m (fst it) \<noteq> None \<or> (v \<and> e (fst it) \<noteq> None)"
      unfolding failed list_ex_iff by blast
    then show "divergence v sc hasD types pdb (symbols db)"
      unfolding mN eN divergence_def list_ex_iff by blast
  next
    assume "divergence v sc hasD types pdb (symbols db)"
    then obtain it t where it: "it \<in> set (symbols db)" and t: "t \<in> set types"
      and d: "symbol_missing_at sc hasD pdb it t \<or> (v \<and> symbol_extra_at sc hasD pdb it t)"
      unfolding divergence_def list_ex_iff by blast
    from d have "fst it \<in> fst ` set pdb"
      using symbol_missing_at_platform symbol_extra_at_platform by blast
    then obtain p where p: "p \<in> set pdb" and fp: "fst p = fst it" by force
    from d it t have "m (fst it) \<noteq> None \<or> (v \<and> e (fst it) \<noteq> None)"
      unfolding mN eN list_ex_iff by blast
    with p fp show failed
      unfolding failed list_ex_iff by metis
  qed
  then have rv: "return_value r = (\<not> divergence v sc hasD types pdb (symbols db))"
    by (simp add: r_def)
  have pm: "(MarkedAvailableButMissing n S \<in> set (printed r)) =
       (n \<in> fst ` set pdb \<and> missing_availability r n = Some S)" for n S
    using report_loop_missing_message [OF rep, of n S] by (simp add: r_def)
  have pe: "(MarkedUnavailableButAvailable n S \<in> set (printed r)) =
       (v \<and> n \<in> fst ` set pdb \<and> extra_availability r n = Some S)" for n S
    using report_loop_extra_message [OF rep, of n S] by (simp add: r_def)
  show thesis
  proof (rule that [of r])
    show "checkVersions_trace v sc hasD types db pdb = Inr r" by (rule trace)
    show "return_value r = (\<not> divergence v sc hasD types pdb (symbols db))" by (rule rv)
    show "completely_unavailable r = {n \<in> fst ` set (symbols db). map_of pdb n = None}"
      using cu by (simp add: r_def)
    show "\<And>n. recorded (missing_availability r) n =
       {t \<in> set types. list_ex (\<lambda>it. fst it = n \<and> symbol_missing_at sc hasD pdb it t) (symbols db)}"
      using m by (simp add: r_def)
    show "\<And>n. recorded (extra_availability r) n =
       {t \<in> set types. list_ex (\<lambda>it. fst it = n \<and> symbol_extra_at sc hasD pdb it t) (symbols db)}"
      using e by (simp add: r_def)
    show "\<And>n. (missing_availability r n = None) =
       (\<not> list_ex (\<lambda>it. fst it = n \<and> list_ex (symbol_missing_at sc hasD pdb it) types) (symbols db))"
      using mN by (simp add: r_def)
    show "\<And>n. (extra_availability r n = None) =
       (\<not> list_ex (\<lambda>it. fst it = n \<and> list_ex (symbol_extra_at sc hasD pdb it) types) (symbols db))"
      using eN by (simp add: r_def)
    show "\<And>n S. (MarkedAvailableButMissing n S \<in> set (printed r)) =
       (n \<in> fst ` set pdb \<and> missing_availability r n = Some S)"
      by (rule pm)
    show "\<And>n S. (MarkedUnavailableButAvailable n S \<in> set (printed r)) =
       (v \<and> n \<in> fst ` set pdb \<and> extra_availability r n = Some S)"
      by (rule pe)
  qed
qed

lemma checkVersions_trace_fatal:
  assumes "list_ex (\<lambda>it. sc (snd it) = None) (symbols db)"
  shows "checkVersions_trace v sc hasD types db pdb =
     Inl (Fatal ''failed to calculate symbol availability'')"
  by (simp add: checkVersions_trace_def symbols_loop_fatal [OF assms])

lemma checkVersions_trace_total:
  assumes "list_all (\<lambda>it. sc (snd it) \<noteq> None) (symbols db)"
  shows "\<exists>r. checkVersions_trace v sc hasD types db pdb = Inr r"
  by (rule checkVersions_trace_Inr
        [OF assms, where v=v and hasD=hasD and types=types and pdb=pdb]) blast

lemma checkVersions_trace_facts:
  assumes tr: "checkVersions_trace v sc hasD types db pdb = Inr r"
  shows "return_value r = (\<not> divergence v sc hasD types pdb (symbols db))"
    and "completely_unavailable r = {n \<in> fst ` set (symbols db). map_of pdb n = None}"
    and "recorded (missing_availability r) n =
       {t \<in> set types. list_ex (\<lambda>it. fst it = n \<and> symbol_missing_at sc hasD pdb it t) (symbols db)}"
    and "recorded (extra_availability r) n =
       {t \<in> set types. list_ex (\<lambda>it. fst it = n \<and> symbol_extra_at sc hasD pdb it t) (symbols db)}"
    and "(missing_availability r n = None) =
       (\<not> list_ex (\<lambda>it. fst it = n \<and> list_ex (symbol_missing_at sc hasD pdb it) types) (symbols db))"
    and "(extra_availability r n = None) =
       (\<not> list_ex (\<lambda>it. fst it = n \<and> list_ex (symbol_extra_at sc hasD pdb it) types) (symbols db))"
    and "(MarkedAvailableButMissing n S \<in> set (printed r)) =
       (n \<in> fst ` set pdb \<and> missing_availability r n = Some S)"
    and "(MarkedUnavailableButAvailable n S \<in> set (printed r)) =
       (v \<and> n \<in> fst ` set pdb \<and> extra_availability r n = Some S)"
proof -
  have ok: "list_all (\<lambda>it. sc (snd it) \<noteq> None) (symbols db)"
  proof (rule ccontr)
    assume "\<not> list_all (\<lambda>it. sc (snd it) \<noteq> None) (symbols db)"
    then have "list_ex (\<lambda>it. sc (snd it) = None) (symbols db)"
      by (auto simp: list_all_iff list_ex_iff)
    from checkVersions_trace_fatal [OF this, of v hasD types pdb] tr show False by simp
  qed
  show "return_value r = (\<not> divergence v sc hasD types pdb (symbols db))"
    and "completely_unavailable r = {n \<in> fst ` set (symbols db). map_of pdb n = None}"
    and "recorded (missing_availability r) n =
       {t \<in> set types. list_ex (\<lambda>it. fst it = n \<and> symbol_missing_at sc hasD pdb it t) (symbols db)}"
    and "recorded (extra_availability r) n =
       {t \<in> set types. list_ex (\<lambda>it. fst it = n \<and> symbol_extra_at sc hasD pdb it t) (symbols db)}"
    and "(missing_availability r n = None) =
       (\<not> list_ex (\<lambda>it. fst it = n \<and> list_ex (symbol_missing_at sc hasD pdb it) types) (symbols db))"
    and "(extra_availability r n = None) =
       (\<not> list_ex (\<lambda>it. fst it = n \<and> list_ex (symbol_extra_at sc hasD pdb it) types) (symbols db))"
    and "(MarkedAvailableButMissing n S \<in> set (printed r)) =
       (n \<in> fst ` set pdb \<and> missing_availability r n = Some S)"
    and "(MarkedUnavailableButAvailable n S \<in> set (printed r)) =
       (v \<and> n \<in> fst ` set pdb \<and> extra_availability r n = Some S)"
    by (rule checkVersions_trace_Inr
          [OF ok, where v=v and hasD=hasD and types=types and pdb=pdb], simp add: tr)+
qed

lemma checkVersions_Inr:
  assumes "list_all (\<lambda>it. sc (snd it) \<noteq> None) (symbols db)"
  shows "checkVersions v sc hasD types db pdb =
     Inr (\<not> divergence v sc hasD types pdb (symbols db))"
proof -
  from checkVersions_trace_total [OF assms] obtain r where
    r: "checkVersions_trace v sc hasD types db pdb = Inr r" by blast
  from checkVersions_trace_facts(1) [OF r] r show ?thesis
    by (simp add: checkVersions_def)
qed


section \<open>The claims about the internal consistency checker\<close>

text \<open>
  C4, as the code has it. checkSymbol fails on a symbol if and only if more than one
  of its declarations is a definition, or a definition has a calculated availability
  that is not empty, or the merged availability of the symbol does not calculate, or
  the availability of one of its declarations does not calculate; and sanityCheck
  passes if and only if checkSymbol passes on every symbol of the database.
\<close>

theorem checkSymbol_fails_iff:
  "(\<not> checkSymbol decl_calculateAvailability symbol_calculateAvailability availability_empty
        symbol) =
     (multiple_definitions symbol \<or>
      definition_with_availability decl_calculateAvailability availability_empty symbol \<or>
      symbol_calculateAvailability symbol = None \<or>
      declaration_fails decl_calculateAvailability symbol) \<and>
   sanityCheck decl_calculateAvailability symbol_calculateAvailability availability_empty
       database =
     list_all (\<lambda>symbol_it. checkSymbol decl_calculateAvailability symbol_calculateAvailability
                 availability_empty (snd symbol_it))
       (symbols database)"
proof
  show "(\<not> checkSymbol decl_calculateAvailability symbol_calculateAvailability availability_empty
        symbol) =
     (multiple_definitions symbol \<or>
      definition_with_availability decl_calculateAvailability availability_empty symbol \<or>
      symbol_calculateAvailability symbol = None \<or>
      declaration_fails decl_calculateAvailability symbol)"
    unfolding checkSymbol_def checkSymbol_loop_iff multiple_definitions_def
      definition_with_availability_def declaration_fails_def
    by (cases "symbol_calculateAvailability symbol") auto
  show "sanityCheck decl_calculateAvailability symbol_calculateAvailability availability_empty
       database =
     list_all (\<lambda>symbol_it. checkSymbol decl_calculateAvailability symbol_calculateAvailability
                 availability_empty (snd symbol_it))
       (symbols database)"
    unfolding sanityCheck_def sanityCheck_loop_iff
    by (simp add: list_ex_iff list_all_iff)
qed

text \<open>
  C4, as the specification states it, fails: a symbol whose only declaration is a
  definition whose availability does not calculate, while the merged availability
  of the symbol calculates, fails the check, and none of the three conditions of
  the specification holds.
\<close>

theorem checkSymbol_claim_counterexample:
  "\<not> ((\<not> checkSymbol (\<lambda>decl. None) (\<lambda>symbol. Some always_available)
            unconstrained
            \<lparr>name = ''f'', declarations = [\<lparr>is_definition = True, attributes = ()\<rparr>]\<rparr>) =
       (multiple_definitions
          \<lparr>name = ''f'', declarations = [\<lparr>is_definition = True, attributes = ()\<rparr>]\<rparr> \<or>
        definition_with_availability (\<lambda>decl. None)
          unconstrained
          \<lparr>name = ''f'', declarations = [\<lparr>is_definition = True, attributes = ()\<rparr>]\<rparr> \<or>
        (\<lambda>symbol. Some always_available)
          \<lparr>name = ''f'', declarations = [\<lparr>is_definition = True, attributes = ()\<rparr>]\<rparr> = None))"
  by (simp add: checkSymbol_def multiple_definitions_def definition_with_availability_def)


section \<open>The claims about the predicate of the cross-platform checker\<close>

text \<open>
  C6. For a merged availability whose global introduced level is 9 and that has no
  other constraint on introduced or obsoleted, and a symbol that has a declaration
  under the configuration, should_be_available is false at API level 8 and true at
  API levels 9 and 14.
\<close>

theorem should_be_available_global_9:
  assumes "introduced (global_availability symbol_availability) = 9"
    and "obsoleted (global_availability symbol_availability) = 0"
    and "\<forall>a. introduced (arch_availability symbol_availability a) = 0 \<and>
             obsoleted (arch_availability symbol_availability a) = 0"
    and "hasDeclaration symbol type"
  shows "(api_level type = 8 \<longrightarrow>
            \<not> should_be_available hasDeclaration symbol_availability symbol type) \<and>
         (api_level type = 9 \<or> api_level type = 14 \<longrightarrow>
            should_be_available hasDeclaration symbol_availability symbol type)"
  using assms by (auto simp: should_be_available_def version_available_def)

text \<open>
  C6 at the configurations of architecture A with the levels 8, 9 and 14.
\<close>

theorem should_be_available_global_9_witness:
  "\<not> should_be_available everywhere (globally_introduced 9) (declared ''foo'')
       (configuration ''A'' 8) \<and>
   should_be_available everywhere (globally_introduced 9) (declared ''foo'')
       (configuration ''A'' 9) \<and>
   should_be_available everywhere (globally_introduced 9) (declared ''foo'')
       (configuration ''A'' 14)"
  using should_be_available_global_9
      [where symbol_availability="globally_introduced 9" and hasDeclaration=everywhere
         and symbol="declared ''foo''" and type="configuration ''A'' 8"]
    should_be_available_global_9
      [where symbol_availability="globally_introduced 9" and hasDeclaration=everywhere
         and symbol="declared ''foo''" and type="configuration ''A'' 9"]
    should_be_available_global_9
      [where symbol_availability="globally_introduced 9" and hasDeclaration=everywhere
         and symbol="declared ''foo''" and type="configuration ''A'' 14"]
  by simp

text \<open>
  C7. For a merged availability that sets introduced to 9 only in the entry of the
  architecture A, and a symbol that has a declaration under the configuration,
  should_be_available is true under every configuration of another architecture,
  whatever its API level, and under a configuration of A it is false exactly when
  the API level is below 9.
\<close>

theorem should_be_available_arch_9:
  assumes "introduced (global_availability symbol_availability) = 0"
    and "obsoleted (global_availability symbol_availability) = 0"
    and "introduced (arch_availability symbol_availability A) = 9"
    and "obsoleted (arch_availability symbol_availability A) = 0"
    and "\<forall>a. a \<noteq> A \<longrightarrow> introduced (arch_availability symbol_availability a) = 0 \<and>
             obsoleted (arch_availability symbol_availability a) = 0"
    and "hasDeclaration symbol type"
  shows "(arch type \<noteq> A \<longrightarrow>
            should_be_available hasDeclaration symbol_availability symbol type) \<and>
         (arch type = A \<longrightarrow>
            (\<not> should_be_available hasDeclaration symbol_availability symbol type) =
            (api_level type < 9))"
  using assms by (auto simp: should_be_available_def version_available_def)

text \<open>
  C7 at architecture B with level 8 and at architecture A with levels 8 and 9.
\<close>

theorem should_be_available_arch_9_witness:
  "should_be_available everywhere (introduced_on_A 9) (declared ''foo'')
       (configuration ''B'' 8) \<and>
   \<not> should_be_available everywhere (introduced_on_A 9) (declared ''foo'')
       (configuration ''A'' 8) \<and>
   should_be_available everywhere (introduced_on_A 9) (declared ''foo'')
       (configuration ''A'' 9)"
  using should_be_available_arch_9
      [where symbol_availability="introduced_on_A 9" and hasDeclaration=everywhere
         and symbol="declared ''foo''" and A="''A''" and type="configuration ''B'' 8"]
    should_be_available_arch_9
      [where symbol_availability="introduced_on_A 9" and hasDeclaration=everywhere
         and symbol="declared ''foo''" and A="''A''" and type="configuration ''A'' 8"]
    should_be_available_arch_9
      [where symbol_availability="introduced_on_A 9" and hasDeclaration=everywhere
         and symbol="declared ''foo''" and A="''A''" and type="configuration ''A'' 9"]
  by simp


section \<open>The claims about checkVersions\<close>

text \<open>
  C1, as the code has it. When every merged availability calculates and a symbol
  has an extra availability at a configuration (it is not marked future there,
  should_be_available is false and the platform exports it), checkVersions with
  verbose set returns fail and prints the report of that symbol, whose set holds the
  configuration. Without verbose, checkVersions prints no such report and fails
  exactly on a missing availability: the test of verbose guards the report and
  the failure alike.
\<close>

theorem extra_availability_fails_when_verbose:
  assumes ok: "list_all (\<lambda>it. sc (snd it) \<noteq> None) (symbols db)"
    and s: "(n, s) \<in> set (symbols db)" and a: "sc s = Some a"
    and pa: "map_of pdb n = Some pa"
    and t: "t \<in> set types"
    and nf: "\<not> future (arch_availability a (arch t))"
    and ns: "\<not> should_be_available hasD a s t" and ex: "t \<in> pa"
  shows "checkVersions True sc hasD types db pdb = Inr False \<and>
     (\<exists>r S. checkVersions_trace True sc hasD types db pdb = Inr r \<and> t \<in> S \<and>
        MarkedUnavailableButAvailable n S \<in> set (printed r)) \<and>
     checkVersions False sc hasD types db pdb =
       Inr (\<not> divergence False sc hasD types pdb (symbols db)) \<and>
     (\<exists>r. checkVersions_trace False sc hasD types db pdb = Inr r \<and>
        (\<forall>n' S. MarkedUnavailableButAvailable n' S \<notin> set (printed r)))"
proof (intro conjI)
  have x: "symbol_extra_at sc hasD pdb (n, s) t"
    using nf ns ex a pa by (simp add: symbol_extra_at_def extra_at_def)
  have "divergence True sc hasD types pdb (symbols db)"
    unfolding divergence_def list_ex_iff using s t x by blast
  then show "checkVersions True sc hasD types db pdb = Inr False"
    by (simp add: checkVersions_Inr [OF ok])
  show "checkVersions False sc hasD types db pdb =
       Inr (\<not> divergence False sc hasD types pdb (symbols db))"
    by (rule checkVersions_Inr [OF ok])
  from checkVersions_trace_total [OF ok] obtain r where
    r: "checkVersions_trace True sc hasD types db pdb = Inr r" by blast
  have "t \<in> recorded (extra_availability r) n"
    unfolding checkVersions_trace_facts(4) [OF r] list_ex_iff using s t x by force
  then obtain S where S: "extra_availability r n = Some S" and tS: "t \<in> S"
    by (cases "extra_availability r n") (simp_all add: recorded_def)
  have "n \<in> fst ` set pdb"
    using pa by (metis domI dom_map_of_conv_image_fst)
  with S have "MarkedUnavailableButAvailable n S \<in> set (printed r)"
    by (simp add: checkVersions_trace_facts(8) [OF r])
  with r tS show "\<exists>r S. checkVersions_trace True sc hasD types db pdb = Inr r \<and> t \<in> S \<and>
        MarkedUnavailableButAvailable n S \<in> set (printed r)"
    by blast
  from checkVersions_trace_total [OF ok] obtain r' where
    r': "checkVersions_trace False sc hasD types db pdb = Inr r'" by blast
  then show "\<exists>r. checkVersions_trace False sc hasD types db pdb = Inr r \<and>
        (\<forall>n' S. MarkedUnavailableButAvailable n' S \<notin> set (printed r))"
    by (simp add: checkVersions_trace_facts(8) [OF r'])
qed

text \<open>
  C1 with verbose set, at the symbol bar, declared as introduced in level 14 and
  exported by the platform at the levels 9 and 14.
\<close>

theorem extra_availability_fails_when_verbose_witness:
  "checkVersions True (\<lambda>symbol. Some (globally_introduced 14)) everywhere
     [configuration ''A'' 9, configuration ''A'' 14]
     \<lparr>symbols = [(''bar'', declared ''bar'')]\<rparr>
     [(''bar'', {configuration ''A'' 9, configuration ''A'' 14})] = Inr False"
proof -
  have "checkVersions True (\<lambda>symbol. Some (globally_introduced 14)) everywhere
     [configuration ''A'' 9, configuration ''A'' 14]
     \<lparr>symbols = [(''bar'', declared ''bar'')]\<rparr>
     [(''bar'', {configuration ''A'' 9, configuration ''A'' 14})] = Inr False \<and>
     (\<exists>r S. checkVersions_trace True (\<lambda>symbol. Some (globally_introduced 14)) everywhere
     [configuration ''A'' 9, configuration ''A'' 14]
     \<lparr>symbols = [(''bar'', declared ''bar'')]\<rparr>
     [(''bar'', {configuration ''A'' 9, configuration ''A'' 14})] = Inr r \<and>
        configuration ''A'' 9 \<in> S \<and>
        MarkedUnavailableButAvailable ''bar'' S \<in> set (printed r)) \<and>
     checkVersions False (\<lambda>symbol. Some (globally_introduced 14)) everywhere
     [configuration ''A'' 9, configuration ''A'' 14]
     \<lparr>symbols = [(''bar'', declared ''bar'')]\<rparr>
     [(''bar'', {configuration ''A'' 9, configuration ''A'' 14})] =
       Inr (\<not> divergence False (\<lambda>symbol. Some (globally_introduced 14)) everywhere
         [configuration ''A'' 9, configuration ''A'' 14]
         [(''bar'', {configuration ''A'' 9, configuration ''A'' 14})]
         (symbols \<lparr>symbols = [(''bar'', declared ''bar'')]\<rparr>)) \<and>
     (\<exists>r. checkVersions_trace False (\<lambda>symbol. Some (globally_introduced 14)) everywhere
     [configuration ''A'' 9, configuration ''A'' 14]
     \<lparr>symbols = [(''bar'', declared ''bar'')]\<rparr>
     [(''bar'', {configuration ''A'' 9, configuration ''A'' 14})] = Inr r \<and>
        (\<forall>n' S. MarkedUnavailableButAvailable n' S \<notin> set (printed r)))"
    by (rule extra_availability_fails_when_verbose
        [where s="declared ''bar''" and a="globally_introduced 14"
           and pa="{configuration ''A'' 9, configuration ''A'' 14}"])
       (simp_all add: should_be_available_def version_available_def)
  then show ?thesis by (rule conjunct1)
qed

text \<open>
  C1, as the specification states it, fails: at the same input without verbose, the
  configuration of level 9 is an extra availability and checkVersions passes.
\<close>

theorem checkVersions_extra_counterexample:
  "\<not> future (arch_availability (globally_introduced 14) (arch (configuration ''A'' 9))) \<and>
   \<not> should_be_available everywhere (globally_introduced 14) (declared ''bar'')
       (configuration ''A'' 9) \<and>
   configuration ''A'' 9 \<in> {configuration ''A'' 9, configuration ''A'' 14} \<and>
   checkVersions False (\<lambda>symbol. Some (globally_introduced 14)) everywhere
     [configuration ''A'' 9, configuration ''A'' 14]
     \<lparr>symbols = [(''bar'', declared ''bar'')]\<rparr>
     [(''bar'', {configuration ''A'' 9, configuration ''A'' 14})] = Inr True"
  by (simp add: checkVersions_def checkVersions_trace_def check_type_def
      should_be_available_def version_available_def insert_availability_def)

lemma map_of_filter_keys:
  "map_of (filter (\<lambda>p. fst p \<in> K) pdb) n = (if n \<in> K then map_of pdb n else None)"
  by (induction pdb) auto

lemma divergence_both_databases:
  "divergence v sc hasD types pdb syms =
   divergence v sc hasD types (filter (\<lambda>p. fst p \<in> fst ` set syms) pdb)
     (filter (\<lambda>it. map_of pdb (fst it) \<noteq> None) syms)"
proof -
  have m: "map_of pdb (fst it) \<noteq> None" if "symbol_missing_at sc hasD pdb it t" for it t
    using that by (simp add: symbol_missing_at_def split: option.splits)
  have e: "map_of pdb (fst it) \<noteq> None" if "symbol_extra_at sc hasD pdb it t" for it t
    using that by (simp add: symbol_extra_at_def split: option.splits)
  have m': "symbol_missing_at sc hasD (filter (\<lambda>p. fst p \<in> fst ` set syms) pdb) it t =
      symbol_missing_at sc hasD pdb it t" if "it \<in> set syms" for it t
    using that by (simp add: symbol_missing_at_def map_of_filter_keys split: option.splits)
  have e': "symbol_extra_at sc hasD (filter (\<lambda>p. fst p \<in> fst ` set syms) pdb) it t =
      symbol_extra_at sc hasD pdb it t" if "it \<in> set syms" for it t
    using that by (simp add: symbol_extra_at_def map_of_filter_keys split: option.splits)
  have "divergence v sc hasD types (filter (\<lambda>p. fst p \<in> fst ` set syms) pdb)
     (filter (\<lambda>it. map_of pdb (fst it) \<noteq> None) syms) =
     divergence v sc hasD types pdb (filter (\<lambda>it. map_of pdb (fst it) \<noteq> None) syms)"
    unfolding divergence_def list_ex_iff set_filter using m' e' by blast
  also have "\<dots> = divergence v sc hasD types pdb syms"
    unfolding divergence_def list_ex_iff set_filter using m e by blast
  finally show ?thesis by simp
qed

text \<open>
  C2, as the code has it. When every merged availability calculates, the set
  completely_unavailable holds exactly the names of the header database that the
  platform symbol database does not have, and the value that checkVersions returns
  is the one computed from the entries of the two databases whose name the other
  database has too: a symbol of only one database never fails the check.
\<close>

theorem completely_unavailable_header_only:
  assumes ok: "list_all (\<lambda>it. sc (snd it) \<noteq> None) (symbols db)"
  shows "\<exists>r. checkVersions_trace v sc hasD types db pdb = Inr r \<and>
     completely_unavailable r = {n \<in> fst ` set (symbols db). map_of pdb n = None} \<and>
     return_value r =
       (\<not> divergence v sc hasD types
            (filter (\<lambda>p. fst p \<in> fst ` set (symbols db)) pdb)
            (filter (\<lambda>it. map_of pdb (fst it) \<noteq> None) (symbols db)))"
proof -
  from checkVersions_trace_total [OF ok] obtain r where
    r: "checkVersions_trace v sc hasD types db pdb = Inr r" by blast
  have "completely_unavailable r = {n \<in> fst ` set (symbols db). map_of pdb n = None}"
    by (rule checkVersions_trace_facts(2) [OF r])
  moreover have "return_value r =
       (\<not> divergence v sc hasD types
            (filter (\<lambda>p. fst p \<in> fst ` set (symbols db)) pdb)
            (filter (\<lambda>it. map_of pdb (fst it) \<noteq> None) (symbols db)))"
    using checkVersions_trace_facts(1) [OF r]
      divergence_both_databases [of v sc hasD types pdb "symbols db"]
    by simp
  ultimately show ?thesis using r by blast
qed

text \<open>
  C2, as the code has it, at a header database with the symbol baz alone and a
  platform database with the symbol foo alone.
\<close>

theorem completely_unavailable_header_only_witness:
  "checkVersions_trace False (\<lambda>symbol. Some (globally_introduced 9)) everywhere
     [configuration ''A'' 9]
     \<lparr>symbols = [(''baz'', declared ''baz'')]\<rparr>
     [(''foo'', {configuration ''A'' 9})] =
   Inr \<lparr>return_value = True, printed = [], completely_unavailable = {''baz''},
        missing_availability = Map.empty, extra_availability = Map.empty\<rparr> \<and>
   {n \<in> fst ` set (symbols \<lparr>symbols = [(''baz'', declared ''baz'')]\<rparr>).
      map_of [(''foo'', {configuration ''A'' 9})] n = None} = {''baz''}"
  using completely_unavailable_header_only
    [where sc="\<lambda>symbol. Some (globally_introduced 9)" and db="\<lparr>symbols = [(''baz'', declared ''baz'')]\<rparr>"
       and v=False and hasD=everywhere and types="[configuration ''A'' 9]"
       and pdb="[(''foo'', {configuration ''A'' 9})]"]
  by (auto simp: checkVersions_trace_def)

text \<open>
  C2, as the specification states it, fails: at that input foo is in the platform
  database and not in the header database, and completely_unavailable holds baz
  and not foo.
\<close>

theorem completely_unavailable_counterexample:
  "''foo'' \<in> fst ` set [(''foo'', {configuration ''A'' 9})] \<and>
   ''foo'' \<notin> fst ` set (symbols \<lparr>symbols = [(''baz'', declared ''baz'')]\<rparr>) \<and>
   checkVersions_trace False (\<lambda>symbol. Some (globally_introduced 9)) everywhere
     [configuration ''A'' 9]
     \<lparr>symbols = [(''baz'', declared ''baz'')]\<rparr>
     [(''foo'', {configuration ''A'' 9})] =
   Inr \<lparr>return_value = True, printed = [], completely_unavailable = {''baz''},
        missing_availability = Map.empty, extra_availability = Map.empty\<rparr> \<and>
   ''foo'' \<notin> {''baz''}"
  by (simp add: checkVersions_trace_def)

text \<open>
  C8. Let the names of the header database be distinct, as the keys of a map are,
  and let every merged availability calculate. No configuration of an architecture
  that the merged availability of a symbol marks future is recorded as a missing
  or as an extra availability of that symbol; when the platform database has the
  symbol, every other configuration is recorded as missing exactly when
  should_be_available holds and the platform does not export the symbol there, and
  as extra exactly when should_be_available fails and the platform exports it.
\<close>

theorem future_architecture_not_compared:
  assumes ok: "list_all (\<lambda>it. sc (snd it) \<noteq> None) (symbols db)"
    and d: "distinct (map fst (symbols db))"
    and s: "(n, s) \<in> set (symbols db)" and a: "sc s = Some a"
  shows "\<exists>r. checkVersions_trace v sc hasD types db pdb = Inr r \<and>
     (\<forall>t. future (arch_availability a (arch t)) \<longrightarrow>
        t \<notin> recorded (missing_availability r) n \<and>
        t \<notin> recorded (extra_availability r) n) \<and>
     (\<forall>pa t. map_of pdb n = Some pa \<and> t \<in> set types \<and>
            \<not> future (arch_availability a (arch t)) \<longrightarrow>
        (t \<in> recorded (missing_availability r) n) =
          (should_be_available hasD a s t \<and> t \<notin> pa) \<and>
        (t \<in> recorded (extra_availability r) n) =
          (\<not> should_be_available hasD a s t \<and> t \<in> pa))"
proof -
  from checkVersions_trace_total [OF ok] obtain r where
    r: "checkVersions_trace v sc hasD types db pdb = Inr r" by blast
  have only: "it = (n, s)" if "it \<in> set (symbols db)" and "fst it = n" for it
  proof -
    obtain k x where it: "it = (k, x)" by (cases it)
    with that have "(n, x) \<in> set (symbols db)" by simp
    from eq_key_imp_eq_value [OF d this s] it that show ?thesis by simp
  qed
  have ms: "symbol_missing_at sc hasD pdb (n, s) t =
      (case map_of pdb n of None \<Rightarrow> False | Some pa \<Rightarrow> missing_at hasD a s pa t)" for t
    using a by (simp add: symbol_missing_at_def split: option.splits)
  have es: "symbol_extra_at sc hasD pdb (n, s) t =
      (case map_of pdb n of None \<Rightarrow> False | Some pa \<Rightarrow> extra_at hasD a s pa t)" for t
    using a by (simp add: symbol_extra_at_def split: option.splits)
  have m: "(t \<in> recorded (missing_availability r) n) =
      (t \<in> set types \<and>
       (case map_of pdb n of None \<Rightarrow> False | Some pa \<Rightarrow> missing_at hasD a s pa t))" for t
  proof -
    have "list_ex (\<lambda>it. fst it = n \<and> symbol_missing_at sc hasD pdb it t) (symbols db) =
        symbol_missing_at sc hasD pdb (n, s) t"
    proof
      assume "list_ex (\<lambda>it. fst it = n \<and> symbol_missing_at sc hasD pdb it t) (symbols db)"
      then obtain it where "it \<in> set (symbols db)" and "fst it = n"
        and "symbol_missing_at sc hasD pdb it t"
        unfolding list_ex_iff by blast
      with only [of it] show "symbol_missing_at sc hasD pdb (n, s) t" by simp
    next
      assume "symbol_missing_at sc hasD pdb (n, s) t"
      with s show "list_ex (\<lambda>it. fst it = n \<and> symbol_missing_at sc hasD pdb it t) (symbols db)"
        unfolding list_ex_iff by force
    qed
    then show ?thesis
      unfolding checkVersions_trace_facts(3) [OF r] ms by simp
  qed
  have e: "(t \<in> recorded (extra_availability r) n) =
      (t \<in> set types \<and>
       (case map_of pdb n of None \<Rightarrow> False | Some pa \<Rightarrow> extra_at hasD a s pa t))" for t
  proof -
    have "list_ex (\<lambda>it. fst it = n \<and> symbol_extra_at sc hasD pdb it t) (symbols db) =
        symbol_extra_at sc hasD pdb (n, s) t"
    proof
      assume "list_ex (\<lambda>it. fst it = n \<and> symbol_extra_at sc hasD pdb it t) (symbols db)"
      then obtain it where "it \<in> set (symbols db)" and "fst it = n"
        and "symbol_extra_at sc hasD pdb it t"
        unfolding list_ex_iff by blast
      with only [of it] show "symbol_extra_at sc hasD pdb (n, s) t" by simp
    next
      assume "symbol_extra_at sc hasD pdb (n, s) t"
      with s show "list_ex (\<lambda>it. fst it = n \<and> symbol_extra_at sc hasD pdb it t) (symbols db)"
        unfolding list_ex_iff by force
    qed
    then show ?thesis
      unfolding checkVersions_trace_facts(4) [OF r] es by simp
  qed
  have "\<forall>t. future (arch_availability a (arch t)) \<longrightarrow>
        t \<notin> recorded (missing_availability r) n \<and>
        t \<notin> recorded (extra_availability r) n"
    unfolding m e missing_at_def extra_at_def by (cases "map_of pdb n") simp_all
  moreover have "\<forall>pa t. map_of pdb n = Some pa \<and> t \<in> set types \<and>
            \<not> future (arch_availability a (arch t)) \<longrightarrow>
        (t \<in> recorded (missing_availability r) n) =
          (should_be_available hasD a s t \<and> t \<notin> pa) \<and>
        (t \<in> recorded (extra_availability r) n) =
          (\<not> should_be_available hasD a s t \<and> t \<in> pa)"
    unfolding m e missing_at_def extra_at_def by (cases "map_of pdb n") simp_all
  ultimately show ?thesis using r by blast
qed

text \<open>
  C8 at a symbol marked future on architecture A that the platform does not
  export: the configuration of A is not recorded, the one of B is a missing
  availability.
\<close>

theorem future_architecture_not_compared_witness:
  "\<exists>r. checkVersions_trace False (\<lambda>symbol. Some future_on_A) everywhere
          [configuration ''A'' 9, configuration ''B'' 9]
          \<lparr>symbols = [(''f'', declared ''f'')]\<rparr> [(''f'', {})] = Inr r \<and>
        configuration ''A'' 9 \<notin> recorded (missing_availability r) ''f'' \<and>
        configuration ''A'' 9 \<notin> recorded (extra_availability r) ''f'' \<and>
        configuration ''B'' 9 \<in> recorded (missing_availability r) ''f''"
proof -
  from future_architecture_not_compared
    [where sc="\<lambda>symbol. Some future_on_A" and db="\<lparr>symbols = [(''f'', declared ''f'')]\<rparr>"
       and n="''f''" and s="declared ''f''" and a=future_on_A and pdb="[(''f'', {})]"
       and v=False and hasD=everywhere and types="[configuration ''A'' 9, configuration ''B'' 9]"]
  obtain r where r: "checkVersions_trace False (\<lambda>symbol. Some future_on_A) everywhere
          [configuration ''A'' 9, configuration ''B'' 9]
          \<lparr>symbols = [(''f'', declared ''f'')]\<rparr> [(''f'', {})] = Inr r"
    and f: "\<forall>t. future (arch_availability future_on_A (arch t)) \<longrightarrow>
        t \<notin> recorded (missing_availability r) ''f'' \<and>
        t \<notin> recorded (extra_availability r) ''f''"
    and c: "\<forall>pa t. map_of [(''f'', {})] ''f'' = Some pa \<and>
          t \<in> set [configuration ''A'' 9, configuration ''B'' 9] \<and>
          \<not> future (arch_availability future_on_A (arch t)) \<longrightarrow>
        (t \<in> recorded (missing_availability r) ''f'') =
          (should_be_available everywhere future_on_A (declared ''f'') t \<and> t \<notin> pa) \<and>
        (t \<in> recorded (extra_availability r) ''f'') =
          (\<not> should_be_available everywhere future_on_A (declared ''f'') t \<and> t \<in> pa)"
    by auto
  from f [rule_format, of "configuration ''A'' 9"]
  have "configuration ''A'' 9 \<notin> recorded (missing_availability r) ''f'' \<and>
        configuration ''A'' 9 \<notin> recorded (extra_availability r) ''f''"
    by simp
  moreover from c [rule_format, of "{}" "configuration ''B'' 9"]
  have "configuration ''B'' 9 \<in> recorded (missing_availability r) ''f''"
    by (simp add: should_be_available_def version_available_def)
  ultimately show ?thesis using r by blast
qed





section \<open>The claim about the exit status\<close>

text \<open>
  C3, as the code has it. When main runs the checks (no dump) and preprocessing is
  not forced (no output path, or no force), the exit status is 0 only if
  compileHeaders reported no failure, sanityCheck passed and, with a platform
  directory, checkVersions passed.
\<close>

theorem main_exit_status:
  assumes "\<not> dump" and "\<not> (preprocessor_output_path \<noteq> [] \<and> force)"
    and "exit_status (main verbose decl_calculateAvailability symbol_calculateAvailability
           hasDeclaration availability_empty preprocessHeaders dump force platform_dir
           preprocessor_output_path header_dir compilation_types symbol_database
           declaration_database compile_failed) = 0"
  shows "\<not> compile_failed \<and>
     sanityCheck decl_calculateAvailability symbol_calculateAvailability availability_empty
       declaration_database \<and>
     (platform_dir \<noteq> [] \<longrightarrow>
        checkVersions verbose symbol_calculateAvailability hasDeclaration compilation_types
          declaration_database symbol_database = Inr True)"
proof (cases "platform_dir = []")
  case True
  with assms show ?thesis
    by (auto simp: main_def split: if_splits)
next
  case False
  show ?thesis
  proof (cases "checkVersions verbose symbol_calculateAvailability hasDeclaration
      compilation_types declaration_database symbol_database")
    case (Inl e)
    obtain msg where "e = Fatal msg" by (cases e)
    with assms False Inl show ?thesis
      by (simp add: main_def)
  next
    case (Inr ok)
    with assms False show ?thesis
      by (auto simp: main_def split: if_splits)
  qed
qed

text \<open>
  C3, as the code has it, at a run with a platform directory in which every check
  passes.
\<close>

theorem main_exit_status_witness:
  "exit_status
     (main False (\<lambda>decl. Some (globally_introduced 9)) (\<lambda>symbol. Some (globally_introduced 9))
        everywhere unconstrained (\<lambda>output_path header_dir database. True)
        False False ''platforms'' [] ''headers'' [configuration ''A'' 9]
        [(''foo'', {configuration ''A'' 9})]
        \<lparr>symbols = [(''foo'', declared ''foo'')]\<rparr> False) = 0 \<and>
   sanityCheck (\<lambda>decl. Some (globally_introduced 9)) (\<lambda>symbol. Some (globally_introduced 9))
     unconstrained \<lparr>symbols = [(''foo'', declared ''foo'')]\<rparr> \<and>
   checkVersions False (\<lambda>symbol. Some (globally_introduced 9)) everywhere
     [configuration ''A'' 9] \<lparr>symbols = [(''foo'', declared ''foo'')]\<rparr>
     [(''foo'', {configuration ''A'' 9})] = Inr True"
proof -
  have cv: "checkVersions False (\<lambda>symbol. Some (globally_introduced 9)) everywhere
     [configuration ''A'' 9] \<lparr>symbols = [(''foo'', declared ''foo'')]\<rparr>
     [(''foo'', {configuration ''A'' 9})] = Inr True"
    by (simp add: checkVersions_def checkVersions_trace_def check_type_def
        should_be_available_def version_available_def)
  have sc: "sanityCheck (\<lambda>decl. Some (globally_introduced 9))
     (\<lambda>symbol. Some (globally_introduced 9))
     unconstrained \<lparr>symbols = [(''foo'', declared ''foo'')]\<rparr>"
    by (simp add: sanityCheck_def checkSymbol_def)
  have ex: "exit_status
     (main False (\<lambda>decl. Some (globally_introduced 9)) (\<lambda>symbol. Some (globally_introduced 9))
        everywhere unconstrained (\<lambda>output_path header_dir database. True)
        False False ''platforms'' [] ''headers'' [configuration ''A'' 9]
        [(''foo'', {configuration ''A'' 9})]
        \<lparr>symbols = [(''foo'', declared ''foo'')]\<rparr> False) = 0"
    by (simp add: main_def sc cv)
  from main_exit_status [OF _ _ ex] ex show ?thesis by simp
qed

text \<open>
  C3, as the specification states it, fails: with an output path and force,
  compileHeaders reports a failure, preprocessHeaders succeeds and the exit status
  is 0.
\<close>

theorem main_exit_status_counterexample:
  "exit_status
     (main False (\<lambda>decl. Some (globally_introduced 9)) (\<lambda>symbol. Some (globally_introduced 9))
        everywhere unconstrained (\<lambda>output_path header_dir database. True)
        False True [] ''out'' ''headers'' [configuration ''A'' 9] []
        \<lparr>symbols = [(''foo'', declared ''foo'')]\<rparr> True) = 0"
  by (simp add: main_def sanityCheck_def checkSymbol_def)

end
